theory Spec2Isabelle
  imports Main
begin

section \<open>JavaScript values, objects and the heap\<close>

text \<open>
  The program builds JSON Schema fragments as plain JavaScript objects, copies them
  shallowly with the spread operator and mutates some of them in place
  (\<^verbatim>\<open>delete partialDef.required\<close>, \<^verbatim>\<open>delete def.properties[p]\<close>,
  \<^verbatim>\<open>requiredDef.required = ...\<close>). Objects therefore live in a heap and are
  named by references; arrays are never mutated or compared by identity in this
  program, so an array is the list of its elements.

  A number is written by its canonical decimal text: the compiler's scanner stores the
  text of a numeric literal in that form, and \<^verbatim>\<open>+text\<close> yields the number it
  denotes, so two numbers are equal exactly when their texts are.

  Outside the model: properties that a plain object inherits from
  \<^verbatim>\<open>Object.prototype\<close> (a lookup of \<^verbatim>\<open>toString\<close> or \<^verbatim>\<open>constructor\<close>
  finds only own properties here), and the output of \<^verbatim>\<open>console.log\<close>.
\<close>

datatype jsval =
    Undefined
  | Str string
  | Num string
  | Arr "jsval list"
  | Ref nat

type_synonym obj = "(string \<times> jsval) list"

datatype error =
    NotFound string      \<comment> \<open>\<^verbatim>\<open>Error: "<name>" not found\<close>\<close>
  | BadConditional       \<comment> \<open>\<^verbatim>\<open>Error: bad conditional type, trueType equals falseType\<close>\<close>
  | UnsupportedNode      \<comment> \<open>\<^verbatim>\<open>Error: unsupported node\<close>\<close>
  | TypeError            \<comment> \<open>raised by the runtime: a property of \<^verbatim>\<open>undefined\<close>, a call of a
                             non-function, \<^verbatim>\<open>Object.keys(undefined)\<close>\<close>
  | RangeError           \<comment> \<open>the call stack is exhausted: recursion deeper than the bound\<close>

definition andThen :: "error + 'a \<Rightarrow> ('a \<Rightarrow> error + 'b) \<Rightarrow> error + 'b" where
  "andThen r f = (case r of Inl e \<Rightarrow> Inl e | Inr x \<Rightarrow> f x)"

fun mapM :: "('a \<Rightarrow> 's \<Rightarrow> error + ('b \<times> 's)) \<Rightarrow> 'a list \<Rightarrow> 's \<Rightarrow> error + ('b list \<times> 's)" where
  "mapM f [] s = Inr ([], s)"
| "mapM f (x # xs) s =
     andThen (f x s) (\<lambda>(v, s1). andThen (mapM f xs s1) (\<lambda>(vs, s2). Inr (v # vs, s2)))"

subsection \<open>Property keys and their order\<close>

definition digit_chars :: string where
  "digit_chars = ''0123456789''"

fun dec :: "nat \<Rightarrow> string" where
  "dec n = (if n < 10 then [digit_chars ! n] else dec (n div 10) @ [digit_chars ! (n mod 10)])"

declare dec.simps [simp del]

definition digit_val :: "char \<Rightarrow> int" where
  "digit_val c = of_char c - 48"

definition is_digit :: "char \<Rightarrow> bool" where
  "is_digit c = (48 \<le> (of_char c :: int) \<and> (of_char c :: int) \<le> 57)"

text \<open>An array index is the canonical decimal text of a number below \<open>2^32 - 1\<close>.\<close>

definition array_index :: "string \<Rightarrow> int option" where
  "array_index k =
     (if k = [] \<or> \<not> list_all is_digit k \<or> (1 < length k \<and> hd k = CHR ''0'') then None
      else let n = foldl (\<lambda>a c. 10 * a + digit_val c) 0 k
           in if n < 4294967295 then Some n else None)"

text \<open>
  An object is the list of its own properties in the order in which JavaScript
  enumerates them: array indices ascending, then the other keys in insertion order.
\<close>

fun insert_index :: "int \<Rightarrow> string \<Rightarrow> jsval \<Rightarrow> obj \<Rightarrow> obj" where
  "insert_index i k v [] = [(k, v)]"
| "insert_index i k v ((k', v') # rest) =
     (case array_index k' of
        Some j \<Rightarrow> if j < i then (k', v') # insert_index i k v rest else (k, v) # (k', v') # rest
      | None \<Rightarrow> (k, v) # (k', v') # rest)"

definition set_prop :: "obj \<Rightarrow> string \<Rightarrow> jsval \<Rightarrow> obj" where
  "set_prop ob k v =
     (if map_of ob k \<noteq> None then map (\<lambda>(k', v'). if k' = k then (k', v) else (k', v')) ob
      else case array_index k of
             Some i \<Rightarrow> insert_index i k v ob
           | None \<Rightarrow> ob @ [(k, v)])"

definition delete_prop :: "obj \<Rightarrow> string \<Rightarrow> obj" where
  "delete_prop ob k = filter (\<lambda>(k', v'). k' \<noteq> k) ob"

definition obj_get :: "obj \<Rightarrow> string \<Rightarrow> jsval" where
  "obj_get ob k = (case map_of ob k of Some v \<Rightarrow> v | None \<Rightarrow> Undefined)"

definition spread :: "obj \<Rightarrow> obj \<Rightarrow> obj" where
  \<comment> \<open>\<^verbatim>\<open>{ ...tgt, ...src }\<close>: the properties of \<open>src\<close> written over those of \<open>tgt\<close>\<close>
  "spread tgt src = fold (\<lambda>(k, v) acc. set_prop acc k v) src tgt"

fun join :: "string list \<Rightarrow> string" where
  "join [] = []"
| "join [x] = x"
| "join (x # y # ys) = x @ '','' @ join (y # ys)"

fun toString :: "jsval \<Rightarrow> string" where
  \<comment> \<open>the property key that a value used as an index denotes\<close>
  "toString Undefined = ''undefined''"
| "toString (Str s) = s"
| "toString (Num t) = t"
| "toString (Ref r) = ''[object Object]''"
| "toString (Arr xs) = join (map (\<lambda>x. if x = Undefined then [] else toString x) xs)"

definition truthy :: "jsval \<Rightarrow> bool" where
  "truthy v = (case v of
       Undefined \<Rightarrow> False
     | Str s \<Rightarrow> s \<noteq> []
     | Num t \<Rightarrow> t \<noteq> ''0'' \<and> t \<noteq> ''NaN''
     | Arr xs \<Rightarrow> True
     | Ref r \<Rightarrow> True)"

subsection \<open>The heap\<close>

record state =
  heap :: "obj list"       \<comment> \<open>every object allocated so far, by address\<close>
  resolved :: obj          \<comment> \<open>the global \<^verbatim>\<open>resolved\<close>: declaration name to schema\<close>

definition heap_get :: "obj list \<Rightarrow> nat \<Rightarrow> obj" where
  "heap_get h r = (if r < length h then h ! r else [])"

definition new_object :: "obj \<Rightarrow> state \<Rightarrow> error + (jsval \<times> state)" where
  "new_object ob s = Inr (Ref (length (heap s)), s\<lparr>heap := heap s @ [ob]\<rparr>)"

definition own_entries :: "obj list \<Rightarrow> jsval \<Rightarrow> obj" where
  \<comment> \<open>the own enumerable properties that a spread or \<^verbatim>\<open>Object.keys\<close> sees\<close>
  "own_entries h v = (case v of
       Undefined \<Rightarrow> []
     | Num t \<Rightarrow> []
     | Str s \<Rightarrow> map (\<lambda>i. (dec i, Str [s ! i])) [0 ..< length s]
     | Arr xs \<Rightarrow> map (\<lambda>i. (dec i, xs ! i)) [0 ..< length xs]
     | Ref r \<Rightarrow> heap_get h r)"

definition js_get :: "obj list \<Rightarrow> jsval \<Rightarrow> string \<Rightarrow> error + jsval" where
  \<comment> \<open>the property read \<^verbatim>\<open>v[k]\<close>\<close>
  "js_get h v k = (case v of
       Undefined \<Rightarrow> Inl TypeError
     | Num t \<Rightarrow> Inr Undefined
     | Str s \<Rightarrow> Inr (if k = ''length'' then Num (dec (length s))
                      else obj_get (own_entries h (Str s)) k)
     | Arr xs \<Rightarrow> Inr (if k = ''length'' then Num (dec (length xs))
                       else obj_get (own_entries h (Arr xs)) k)
     | Ref r \<Rightarrow> Inr (obj_get (heap_get h r) k))"

definition object_keys :: "obj list \<Rightarrow> jsval \<Rightarrow> error + jsval" where
  \<comment> \<open>\<^verbatim>\<open>Object.keys(v)\<close>\<close>
  "object_keys h v =
     (if v = Undefined then Inl TypeError else Inr (Arr (map (\<lambda>(k, x). Str k) (own_entries h v))))"

definition js_delete :: "jsval \<Rightarrow> string \<Rightarrow> state \<Rightarrow> error + state" where
  \<comment> \<open>\<^verbatim>\<open>delete v[k]\<close> in strict mode; the program applies it to objects, and
      to the string or \<^verbatim>\<open>undefined\<close> that a documentation tag can put in their place\<close>
  "js_delete v k s = (case v of
       Undefined \<Rightarrow> Inl TypeError
     | Ref r \<Rightarrow> Inr (s\<lparr>heap := (heap s)[r := delete_prop (heap_get (heap s) r) k]\<rparr>)
     | Num t \<Rightarrow> Inr s
     | Str x \<Rightarrow> if k = ''length'' \<or> map_of (own_entries (heap s) (Str x)) k \<noteq> None
                then Inl TypeError else Inr s
     | Arr xs \<Rightarrow> if k = ''length'' \<or> map_of (own_entries (heap s) (Arr xs)) k \<noteq> None
                 then Inl TypeError else Inr s)"

definition js_set :: "jsval \<Rightarrow> string \<Rightarrow> jsval \<Rightarrow> state \<Rightarrow> error + state" where
  \<comment> \<open>\<^verbatim>\<open>v[k] = x\<close> in strict mode; the program applies it to objects only\<close>
  "js_set v k x s = (case v of
       Ref r \<Rightarrow> Inr (s\<lparr>heap := (heap s)[r := set_prop (heap_get (heap s) r) k x]\<rparr>)
     | _ \<Rightarrow> Inl TypeError)"

definition array_elems :: "jsval \<Rightarrow> error + jsval list" where
  \<comment> \<open>the receiver of \<^verbatim>\<open>forEach\<close>, \<^verbatim>\<open>filter\<close> or \<^verbatim>\<open>map\<close>: anything but an
      array has no such method, or is \<^verbatim>\<open>undefined\<close>\<close>
  "array_elems v = (case v of Arr xs \<Rightarrow> Inr xs | _ \<Rightarrow> Inl TypeError)"

definition copy_with :: "obj list \<Rightarrow> jsval \<Rightarrow> obj \<Rightarrow> obj" where
  \<comment> \<open>\<^verbatim>\<open>{ ...v, ...jsdocTag }\<close>\<close>
  "copy_with h v tags = spread (spread [] (own_entries h v)) tags"

section \<open>The type nodes of the compiler\<close>

type_synonym jsdoc = "(string \<times> string option) list"

datatype literal = StringLiteral string | NumericLiteral string | OtherLiteral

datatype operator = KeyOfKeyword | UniqueKeyword | ReadonlyKeyword

text \<open>
  A node carries the documentation tags of its syntactic parent (tag name and comment,
  the comment absent when the tag has none), in source order, and its kind. A type
  reference has its name text and its type arguments, absent when none are written.
\<close>

datatype tnode = TypeNode (jsDocTags: jsdoc) (kind: tkind)
and tkind =
    StringKeyword
  | NumberKeyword
  | BooleanKeyword
  | NullKeyword
  | UndefinedKeyword
  | TypeLiteral "member list"
  | ArrayType tnode
  | TypeReference string "tnode list option"
  | LiteralType literal
  | UnionType "tnode list"
  | IntersectionType "tnode list"
  | TypeOperator operator tnode
  | ConditionalType tnode tnode tnode tnode
  | OtherKind
and member =
    PropertySignature string "tnode option" bool  \<comment> \<open>name text, type, question token\<close>
  | OtherMember

record tstype =
  flags :: nat
  typeToString :: string

record env =
  decls :: "string \<Rightarrow> tnode option"
  getTypeFromTypeNode :: "tnode \<Rightarrow> tstype"

definition isSameType :: "tstype \<Rightarrow> tstype \<Rightarrow> bool" where
  "isSameType a b = (if flags a \<noteq> flags b then False else typeToString a = typeToString b)"

definition jsdocTag :: "jsdoc \<Rightarrow> obj" where
  "jsdocTag tags =
     fold (\<lambda>(name, comment) acc.
             set_prop acc name (case comment of None \<Rightarrow> Undefined | Some c \<Rightarrow> Str c))
          tags []"

section \<open>Projection of a schema: \<^verbatim>\<open>pickProperties\<close> and \<^verbatim>\<open>dropProperties\<close>\<close>

text \<open>
  Both functions recurse through the children of a combinator. The depth of the
  recursion is bounded by the first argument, as the call stack bounds it in the
  program; a call that would go deeper raises \<open>RangeError\<close>.
\<close>

definition pick_object :: "jsval \<Rightarrow> jsval \<Rightarrow> state \<Rightarrow> error + (jsval \<times> state)" where
  \<comment> \<open>the branch \<^verbatim>\<open>def.type === "object"\<close> of \<^verbatim>\<open>pickProperties\<close>\<close>
  "pick_object def keys s =
     andThen (array_elems keys) (\<lambda>ks.
     andThen (mapM (\<lambda>p s0.
                andThen (js_get (heap s0) def ''properties'') (\<lambda>dp.
                andThen (js_get (heap s0) dp (toString p)) (\<lambda>x.
                Inr ((toString p, x), s0)))) ks s) (\<lambda>(picked, s0).
     andThen (new_object (spread [] picked) s0) (\<lambda>(properties, s1).
     andThen (js_get (heap s1) def ''required'') (\<lambda>req.
     andThen (array_elems req) (\<lambda>rs.
     new_object
       (set_prop (set_prop (spread [] (own_entries (heap s1) def)) ''properties'' properties)
          ''required'' (Arr (filter (\<lambda>x. x \<in> set ks) rs)))
       s1)))))"

definition drop_object :: "jsval \<Rightarrow> jsval \<Rightarrow> state \<Rightarrow> error + (jsval \<times> state)" where
  \<comment> \<open>the branch \<^verbatim>\<open>def.type === "object"\<close> of \<^verbatim>\<open>dropProperties\<close>\<close>
  "drop_object def keys s =
     andThen (array_elems keys) (\<lambda>ks.
     andThen (mapM (\<lambda>p s0.
                andThen (js_get (heap s0) def ''properties'') (\<lambda>dp.
                andThen (js_delete dp (toString p) s0) (\<lambda>s1.
                Inr ((), s1)))) ks s) (\<lambda>(units, s1).
     andThen (js_get (heap s1) def ''required'') (\<lambda>req.
     andThen (array_elems req) (\<lambda>rs.
     new_object
       (set_prop (spread [] (own_entries (heap s1) def))
          ''required'' (Arr (filter (\<lambda>x. x \<notin> set ks) rs)))
       s1))))"

definition project_children ::
  "(jsval \<Rightarrow> state \<Rightarrow> error + (jsval \<times> state)) \<Rightarrow> jsval \<Rightarrow> string \<Rightarrow> state \<Rightarrow> error + (jsval \<times> state)" where
  \<comment> \<open>\<^verbatim>\<open>{ ...def, allOf: def[field].map(x => project(x, keys)) }\<close>\<close>
  "project_children project def field s =
     andThen (js_get (heap s) def field) (\<lambda>c.
     andThen (array_elems c) (\<lambda>children.
     andThen (mapM project children s) (\<lambda>(projected, s1).
     new_object (set_prop (spread [] (own_entries (heap s) def)) ''allOf'' (Arr projected)) s1)))"

primrec pickProperties :: "nat \<Rightarrow> jsval \<Rightarrow> jsval \<Rightarrow> state \<Rightarrow> error + (jsval \<times> state)" where
  "pickProperties 0 def keys s = Inl RangeError"
| "pickProperties (Suc n) def keys s =
     andThen (js_get (heap s) def ''type'') (\<lambda>ty.
       if ty = Str ''object'' then pick_object def keys s
       else andThen (js_get (heap s) def ''allOf'') (\<lambda>allOf.
       if truthy allOf then project_children (\<lambda>x. pickProperties n x keys) def ''allOf'' s
       else andThen (js_get (heap s) def ''oneOf'') (\<lambda>oneOf.
       if truthy oneOf then project_children (\<lambda>x. pickProperties n x keys) def ''oneOf'' s
       else andThen (js_get (heap s) def ''anyOf'') (\<lambda>anyOf.
       if truthy anyOf then project_children (\<lambda>x. pickProperties n x keys) def ''anyOf'' s
       else Inr (Undefined, s)))))"

primrec dropProperties :: "nat \<Rightarrow> jsval \<Rightarrow> jsval \<Rightarrow> state \<Rightarrow> error + (jsval \<times> state)" where
  "dropProperties 0 def keys s = Inl RangeError"
| "dropProperties (Suc n) def keys s =
     andThen (js_get (heap s) def ''type'') (\<lambda>ty.
       if ty = Str ''object'' then drop_object def keys s
       else andThen (js_get (heap s) def ''allOf'') (\<lambda>allOf.
       if truthy allOf then project_children (\<lambda>x. dropProperties n x keys) def ''allOf'' s
       else andThen (js_get (heap s) def ''oneOf'') (\<lambda>oneOf.
       if truthy oneOf then project_children (\<lambda>x. dropProperties n x keys) def ''oneOf'' s
       else andThen (js_get (heap s) def ''anyOf'') (\<lambda>anyOf.
       if truthy anyOf then project_children (\<lambda>x. dropProperties n x keys) def ''anyOf'' s
       else Inr (Undefined, s)))))"

section \<open>Resolution: \<^verbatim>\<open>resolve\<close> and \<^verbatim>\<open>getTypeDefinition\<close>\<close>

text \<open>
  \<^verbatim>\<open>resolve\<close> and \<^verbatim>\<open>getTypeDefinition\<close> call each other. The functions below
  take the recursive call as their first argument \<open>derive\<close>; \<open>getTypeDefinition\<close>
  ties the knot with a bound on the depth of the recursion, which stands for the call
  stack: \<open>getTypeDefinition (Suc n)\<close> has room for \<open>n\<close> further nested calls, and
  a call with no room left raises \<open>RangeError\<close>, as the unguarded recursion on
  \<^verbatim>\<open>type A = A\<close> does.

  The body of \<^verbatim>\<open>getTypeDefinition\<close> is split by the kind of the node, in the order
  of its tests: \<open>typeLiteral\<close> is the branch \<^verbatim>\<open>ts.isTypeLiteralNode(t)\<close>,
  \<open>typeReference\<close> the \<^verbatim>\<open>switch\<close> on \<^verbatim>\<open>t.typeName.getText()\<close>,
  \<open>unionType\<close> the branch \<^verbatim>\<open>ts.isUnionTypeNode(t)\<close>, \<open>conditionalType\<close> the
  branch \<^verbatim>\<open>ts.isConditionalTypeNode(t)\<close>, and \<open>getTypeDefinition_body\<close> the
  dispatch with the remaining branches. A node of no handled kind, a literal that is
  neither a string nor a number, a type operator other than \<^verbatim>\<open>keyof\<close> and a
  reference with type arguments and an unknown name all reach the final
  \<^verbatim>\<open>throw\<close>. An exception ends the run, so a failed call returns no state.
\<close>

definition resolve_via ::
  "(tnode \<Rightarrow> state \<Rightarrow> error + (jsval \<times> state)) \<Rightarrow> env \<Rightarrow> string \<Rightarrow> state \<Rightarrow> error + (jsval \<times> state)" where
  "resolve_via derive e name s =
     (if truthy (obj_get (resolved s) name) then Inr (obj_get (resolved s) name, s)
      else case decls e name of
             Some body \<Rightarrow>
               andThen (derive body s) (\<lambda>(v, s1).
                 let s2 = s1\<lparr>resolved := set_prop (resolved s1) name v\<rparr>
                 in Inr (obj_get (resolved s2) name, s2))
           | None \<Rightarrow> Inl (NotFound name))"

definition typeArgument :: "tnode list option \<Rightarrow> nat \<Rightarrow> error + tnode" where
  \<comment> \<open>\<^verbatim>\<open>t.typeArguments[i]\<close>, as the argument of \<^verbatim>\<open>getTypeDefinition\<close>: the read fails
      when there are no type arguments, the call when there is no \<open>i\<close>-th one\<close>
  "typeArgument args i =
     (case args of
        None \<Rightarrow> Inl TypeError
      | Some ts \<Rightarrow> if i < length ts then Inr (ts ! i) else Inl TypeError)"

definition deriveArgument ::
  "(tnode \<Rightarrow> state \<Rightarrow> error + (jsval \<times> state)) \<Rightarrow> tnode list option \<Rightarrow> nat \<Rightarrow> state \<Rightarrow> error + (jsval \<times> state)" where
  "deriveArgument derive args i s = andThen (typeArgument args i) (\<lambda>t. derive t s)"

definition propertySignatures :: "member list \<Rightarrow> (string \<times> tnode option \<times> bool) list" where
  \<comment> \<open>\<^verbatim>\<open>t.members.filter(ts.isPropertySignature)\<close>\<close>
  "propertySignatures members =
     List.map_filter (\<lambda>m. case m of PropertySignature name ty questionToken \<Rightarrow> Some (name, ty, questionToken)
                               | OtherMember \<Rightarrow> None) members"

definition typeLiteral ::
  "(tnode \<Rightarrow> state \<Rightarrow> error + (jsval \<times> state)) \<Rightarrow> member list \<Rightarrow> obj \<Rightarrow> state \<Rightarrow> error + (jsval \<times> state)" where
  "typeLiteral derive members tags s =
     (let signatures = propertySignatures members in
      andThen (mapM (\<lambda>(name, ty, questionToken) s0.
                  case ty of
                    None \<Rightarrow> Inl TypeError
                  | Some t \<Rightarrow> andThen (derive t s0) (\<lambda>(v, s1). Inr ((name, v), s1)))
                signatures s) (\<lambda>(derived, s1).
      andThen (new_object (fold (\<lambda>(name, v) acc. set_prop (spread [] acc) name v) derived []) s1)
        (\<lambda>(properties, s2).
      let required = map (\<lambda>(name, ty, questionToken). Str name)
                       (filter (\<lambda>(name, ty, questionToken). \<not> questionToken) signatures)
      in new_object
           (spread [(''type'', Str ''object''), (''properties'', properties), (''required'', Arr required)]
              tags) s2)))"

definition literalOf :: "tnode \<Rightarrow> literal option" where
  "literalOf t = (case kind t of LiteralType l \<Rightarrow> Some l | _ \<Rightarrow> None)"

definition unionType ::
  "(tnode \<Rightarrow> state \<Rightarrow> error + (jsval \<times> state)) \<Rightarrow> tnode list \<Rightarrow> obj \<Rightarrow> state \<Rightarrow> error + (jsval \<times> state)" where
  "unionType derive types tags s =
     (let literals = List.map_filter literalOf types;
          strings = List.map_filter (\<lambda>l. case l of StringLiteral text \<Rightarrow> Some (Str text) | _ \<Rightarrow> None) literals;
          numbers = List.map_filter (\<lambda>l. case l of NumericLiteral text \<Rightarrow> Some (Num text) | _ \<Rightarrow> None) literals;
          oneOf = andThen (mapM derive types s) (\<lambda>(vs, s1).
                    new_object (spread [(''oneOf'', Arr vs)] tags) s1)
      in if length literals = length types then
           (if length literals = length strings then new_object (spread [(''enum'', Arr strings)] tags) s
            else if length literals = length numbers then new_object (spread [(''enum'', Arr numbers)] tags) s
            else oneOf)
         else oneOf)"

definition conditionalType ::
  "(tnode \<Rightarrow> state \<Rightarrow> error + (jsval \<times> state)) \<Rightarrow> env \<Rightarrow> tnode \<Rightarrow> tnode \<Rightarrow> tnode \<Rightarrow> obj \<Rightarrow> state \<Rightarrow> error + (jsval \<times> state)" where
  "conditionalType derive e t trueBranch falseBranch tags s =
     (let resolvedType = getTypeFromTypeNode e t;
          trueType = getTypeFromTypeNode e trueBranch;
          falseType = getTypeFromTypeNode e falseBranch
      in if isSameType trueType falseType then Inl BadConditional
         else if isSameType resolvedType trueType then
           andThen (derive trueBranch s) (\<lambda>(v, s1). new_object (copy_with (heap s1) v tags) s1)
         else
           andThen (derive falseBranch s) (\<lambda>(v, s1). new_object (copy_with (heap s1) v tags) s1))"

definition typeReference ::
  "nat \<Rightarrow> (tnode \<Rightarrow> state \<Rightarrow> error + (jsval \<times> state)) \<Rightarrow> env \<Rightarrow> string \<Rightarrow> tnode list option \<Rightarrow> obj \<Rightarrow> state \<Rightarrow> error + (jsval \<times> state)" where
  "typeReference n derive e typeName typeArguments tags s =
     (if typeName = ''Array'' then
        andThen (deriveArgument derive typeArguments 0 s) (\<lambda>(items, s1).
        new_object (spread [(''type'', Str ''array''), (''items'', items)] tags) s1)
      else if typeName = ''Partial'' then
        andThen (deriveArgument derive typeArguments 0 s) (\<lambda>(partialDef, s1).
        andThen (js_delete partialDef ''required'' s1) (\<lambda>s2.
        new_object (copy_with (heap s2) partialDef tags) s2))
      else if typeName = ''Required'' then
        andThen (deriveArgument derive typeArguments 0 s) (\<lambda>(requiredDef, s1).
        andThen (js_get (heap s1) requiredDef ''properties'') (\<lambda>properties.
        andThen (object_keys (heap s1) properties) (\<lambda>keys.
        andThen (js_set requiredDef ''required'' keys s1) (\<lambda>s2.
        new_object (copy_with (heap s2) requiredDef tags) s2))))
      else if typeName = ''Readonly'' then
        andThen (deriveArgument derive typeArguments 0 s) (\<lambda>(v, s1).
        new_object (copy_with (heap s1) v tags) s1)
      else if typeName = ''Pick'' then
        andThen (deriveArgument derive typeArguments 0 s) (\<lambda>(pickDef, s1).
        andThen (deriveArgument derive typeArguments 1 s1) (\<lambda>(pickKeys, s2).
        andThen (js_get (heap s2) pickKeys ''enum'') (\<lambda>keys.
        andThen (pickProperties n pickDef keys s2) (\<lambda>(v, s3).
        new_object (copy_with (heap s3) v tags) s3))))
      else if typeName = ''Record'' then
        andThen (deriveArgument derive typeArguments 0 s) (\<lambda>(keysDef, s1).
        andThen (js_get (heap s1) keysDef ''enum'') (\<lambda>recordKeys.
        andThen (deriveArgument derive typeArguments 1 s1) (\<lambda>(recordType, s2).
        andThen (array_elems recordKeys) (\<lambda>ks.
        andThen (mapM (\<lambda>k s0.
                   andThen (new_object (spread [] (own_entries (heap s0) recordType)) s0) (\<lambda>(v, s3).
                   Inr ((toString k, v), s3))) ks s2) (\<lambda>(entries, s3).
        andThen (new_object (spread [] entries) s3) (\<lambda>(properties, s4).
        new_object
          (spread [(''type'', Str ''object''), (''properties'', properties), (''required'', recordKeys)]
             tags) s4))))))
      else if typeName = ''Exclude'' then
        andThen (deriveArgument derive typeArguments 0 s) (\<lambda>(v, s1).
        new_object (copy_with (heap s1) v tags) s1)
      else if typeName = ''Extract'' then
        andThen (deriveArgument derive typeArguments 1 s) (\<lambda>(v, s1).
        new_object (copy_with (heap s1) v tags) s1)
      else if typeName = ''Omit'' then
        andThen (deriveArgument derive typeArguments 0 s) (\<lambda>(omitDef, s1).
        andThen (deriveArgument derive typeArguments 1 s1) (\<lambda>(omitKeys, s2).
        andThen (js_get (heap s2) omitKeys ''enum'') (\<lambda>keys.
        andThen (dropProperties n omitDef keys s2) (\<lambda>(v, s3).
        new_object (copy_with (heap s3) v tags) s3))))
      else if typeName = ''Date'' then
        new_object (spread [(''type'', Str ''string''), (''format'', Str ''time'')] tags) s
      else if typeName = ''RegExp'' then
        new_object (spread [(''type'', Str ''string''), (''format'', Str ''regex'')] tags) s
      else if typeArguments = None then
        andThen (resolve_via derive e typeName s) (\<lambda>(v, s1).
        new_object (copy_with (heap s1) v tags) s1)
      else
        \<comment> \<open>the empty \<^verbatim>\<open>else\<close>: control leaves the \<^verbatim>\<open>switch\<close>, no later test matches a
            type reference, and the function ends in its last \<^verbatim>\<open>throw\<close>\<close>
        Inl UnsupportedNode)"

definition getTypeDefinition_body ::
  "nat \<Rightarrow> (tnode \<Rightarrow> state \<Rightarrow> error + (jsval \<times> state)) \<Rightarrow> env \<Rightarrow> tnode \<Rightarrow> state \<Rightarrow> error + (jsval \<times> state)" where
  "getTypeDefinition_body n derive e t s =
     (let tags = jsdocTag (jsDocTags t) in
      case kind t of
        StringKeyword \<Rightarrow> new_object (spread [(''type'', Str ''string'')] tags) s
      | NumberKeyword \<Rightarrow> new_object (spread [(''type'', Str ''number'')] tags) s
      | BooleanKeyword \<Rightarrow> new_object (spread [(''type'', Str ''boolean'')] tags) s
      | NullKeyword \<Rightarrow> new_object (spread [(''type'', Str ''null'')] tags) s
      | UndefinedKeyword \<Rightarrow> new_object (spread [(''type'', Str ''null'')] tags) s
      | TypeLiteral members \<Rightarrow> typeLiteral derive members tags s
      | ArrayType elementType \<Rightarrow>
          andThen (derive elementType s) (\<lambda>(items, s1).
          new_object (spread [(''type'', Str ''array''), (''items'', items)] tags) s1)
      | TypeReference typeName typeArguments \<Rightarrow>
          typeReference n derive e typeName typeArguments tags s
      | LiteralType lit \<Rightarrow>
          (case lit of
             StringLiteral text \<Rightarrow> new_object (spread [(''enum'', Arr [Str text])] tags) s
           | NumericLiteral text \<Rightarrow> new_object (spread [(''enum'', Arr [Num text])] tags) s
           | OtherLiteral \<Rightarrow> Inl UnsupportedNode)
      | UnionType types \<Rightarrow> unionType derive types tags s
      | IntersectionType types \<Rightarrow>
          andThen (mapM derive types s) (\<lambda>(vs, s1).
          new_object (spread [(''allOf'', Arr vs)] tags) s1)
      | TypeOperator operator ty \<Rightarrow>
          (case operator of
             KeyOfKeyword \<Rightarrow>
               andThen (derive ty s) (\<lambda>(arg, s1).
               andThen (js_get (heap s1) arg ''properties'') (\<lambda>properties.
               andThen (object_keys (heap s1) properties) (\<lambda>keys.
               new_object (spread [(''enum'', keys)] tags) s1)))
           | _ \<Rightarrow> Inl UnsupportedNode)
      | ConditionalType checkType extendsType trueBranch falseBranch \<Rightarrow>
          conditionalType derive e t trueBranch falseBranch tags s
      | OtherKind \<Rightarrow> Inl UnsupportedNode)"

primrec getTypeDefinition :: "nat \<Rightarrow> env \<Rightarrow> tnode \<Rightarrow> state \<Rightarrow> error + (jsval \<times> state)" where
  "getTypeDefinition 0 e t s = Inl RangeError"
| "getTypeDefinition (Suc n) e t s = getTypeDefinition_body n (getTypeDefinition n e) e t s"

definition resolve :: "nat \<Rightarrow> env \<Rightarrow> string \<Rightarrow> state \<Rightarrow> error + (jsval \<times> state)" where
  "resolve n e name s = resolve_via (getTypeDefinition n e) e name s"

definition initial :: state where
  "initial = \<lparr>heap = [], resolved = []\<rparr>"

section \<open>Notions used in the statements, and example programs\<close>

text \<open>
  The recognised operator names are the \<^verbatim>\<open>case\<close> labels of the \<^verbatim>\<open>switch\<close> on
  the name of a type reference. \<open>literalValue\<close> is the value a literal type node
  denotes, and \<open>literalKeys\<close> the key names listed by an untagged string literal type
  or union of string literal types (\<open>stringLiteralText\<close> is the text of one).
\<close>

definition operatorNames :: "string list" where
  "operatorNames = [''Array'', ''Partial'', ''Required'', ''Readonly'', ''Pick'', ''Record'',
     ''Exclude'', ''Extract'', ''Omit'', ''Date'', ''RegExp'']"

definition literalValue :: "tnode \<Rightarrow> jsval" where
  \<comment> \<open>the value that a literal type node denotes\<close>
  "literalValue t = (case kind t of
       LiteralType (StringLiteral text) \<Rightarrow> Str text
     | LiteralType (NumericLiteral text) \<Rightarrow> Num text
     | _ \<Rightarrow> Undefined)"

definition stringLiteralText :: "tnode \<Rightarrow> string option" where
  "stringLiteralText t = (case kind t of LiteralType (StringLiteral text) \<Rightarrow> Some text | _ \<Rightarrow> None)"

fun literalKeys :: "tnode \<Rightarrow> string list option" where
  "literalKeys (TypeNode [] (LiteralType (StringLiteral k))) = Some [k]"
| "literalKeys (TypeNode [] (UnionType ts)) =
     (if list_all (\<lambda>t. stringLiteralText t \<noteq> None) ts
      then Some (map (\<lambda>t. the (stringLiteralText t)) ts) else None)"
| "literalKeys t = None"

text \<open>
  \<open>noDecls\<close> is a program with no declaration. \<open>sample\<close> is the program
  \<^verbatim>\<open>type A = { a: string, b?: number }\<close>,
  \<^verbatim>\<open>/** @properties ab */ type Tagged = string\<close>, with a type checker that
  knows the keyword types and resolves a conditional type whose checked and extended
  types are of the same kind to its true branch, and to its false branch otherwise.
  \<open>cachedA\<close> is the state after \<^verbatim>\<open>resolve("A")\<close> in \<open>sample\<close>, and
  \<open>unionState\<close> the state after deriving
  \<^verbatim>\<open>{ a: string } | { a: string, b?: number }\<close>.
\<close>

definition noDecls :: env where
  "noDecls = \<lparr>decls = (\<lambda>name. None), getTypeFromTypeNode = (\<lambda>t. \<lparr>flags = 0, typeToString = ''any''\<rparr>)\<rparr>"

definition keywordType :: "tnode \<Rightarrow> tstype" where
  "keywordType t = (case kind t of
       NumberKeyword \<Rightarrow> \<lparr>flags = 8, typeToString = ''number''\<rparr>
     | _ \<Rightarrow> \<lparr>flags = 4, typeToString = ''string''\<rparr>)"

definition sample :: env where
  "sample = \<lparr>
     decls = map_of
       [(''A'', TypeNode [] (TypeLiteral
                  [PropertySignature ''a'' (Some (TypeNode [] StringKeyword)) False,
                   PropertySignature ''b'' (Some (TypeNode [] NumberKeyword)) True])),
        (''Tagged'', TypeNode [(''properties'', Some ''ab'')] StringKeyword)],
     getTypeFromTypeNode = (\<lambda>t. case kind t of
         ConditionalType checked ext trueBranch falseBranch \<Rightarrow>
           if kind checked = kind ext then keywordType trueBranch else keywordType falseBranch
       | _ \<Rightarrow> keywordType t)\<rparr>"

definition cachedA :: state where
  "cachedA = \<lparr>heap = [[(''type'', Str ''string'')], [(''type'', Str ''number'')],
                      [(''a'', Ref 0), (''b'', Ref 1)],
                      [(''type'', Str ''object''), (''properties'', Ref 2), (''required'', Arr [Str ''a''])]],
               resolved = [(''A'', Ref 3)]\<rparr>"


section \<open>Objects: lookup after an update, distinct keys\<close>

lemma andThen_Inl [simp]: "andThen (Inl e) f = Inl e"
  by (simp add: andThen_def)

lemma andThen_Inr [simp]: "andThen (Inr x) f = f x"
  by (simp add: andThen_def)

lemma andThen_eq_Inr:
  "andThen r f = Inr y \<longleftrightarrow> (\<exists>x. r = Inr x \<and> f x = Inr y)"
  by (cases r) simp_all

lemma andThenE:
  assumes "andThen r f = Inr y"
  obtains x where "r = Inr x" and "f x = Inr y"
  using assms by (cases r) simp_all

lemma new_objectE:
  assumes "new_object ob s = Inr (v, s')"
  obtains "v = Ref (length (heap s))" and "s' = s\<lparr>heap := heap s @ [ob]\<rparr>"
  using assms by (simp add: new_object_def)

lemma map_of_insert_index:
  "map_of ob k = None \<Longrightarrow> map_of (insert_index i k v ob) = (map_of ob)(k \<mapsto> v)"
proof (induction ob)
  case Nil
  show ?case by simp
next
  case (Cons p ob)
  obtain k' v' where p: "p = (k', v')" by (cases p)
  from Cons.prems p have ne: "k' \<noteq> k" and none: "map_of ob k = None"
    by (auto split: if_splits)
  from Cons.IH [OF none] ne p show ?case
    by (auto split: option.splits simp: fun_eq_iff)
qed

lemma map_of_overwrite:
  "map_of (map (\<lambda>(k', v'). if k' = k then (k', v) else (k', v')) ob) =
     (if map_of ob k = None then map_of ob else (map_of ob)(k \<mapsto> v))"
  by (induction ob) (auto simp: fun_eq_iff)

lemma map_of_set_prop: "map_of (set_prop ob k v) = (map_of ob)(k \<mapsto> v)"
proof (cases "map_of ob k")
  case None
  then show ?thesis
    by (auto simp: set_prop_def map_of_insert_index map_add_def fun_eq_iff split: option.splits)
next
  case (Some x)
  then show ?thesis
    by (simp add: set_prop_def map_of_overwrite)
qed


lemma map_of_delete_prop: "map_of (delete_prop ob k) = (map_of ob)(k := None)"
  by (induction ob) (auto simp: delete_prop_def fun_eq_iff)

lemma map_of_spread: "map_of (spread tgt src) = map_of tgt ++ map_of (rev src)"
  unfolding spread_def
proof (induction src arbitrary: tgt)
  case Nil
  show ?case by simp
next
  case (Cons p src)
  obtain k v where p: "p = (k, v)" by (cases p)
  show ?case by (simp add: p Cons map_of_set_prop map_add_def fun_eq_iff split: option.splits)
qed

lemma map_of_jsdocTag:
  "map_of (jsdocTag tags) =
     map_option (\<lambda>comment. case comment of None \<Rightarrow> Undefined | Some c \<Rightarrow> Str c) \<circ> map_of (rev tags)"
proof -
  have "map_of (fold (\<lambda>(name, comment) acc.
             set_prop acc name (case comment of None \<Rightarrow> Undefined | Some c \<Rightarrow> Str c)) tags acc0) =
        map_of acc0 ++ (map_option (\<lambda>comment. case comment of None \<Rightarrow> Undefined | Some c \<Rightarrow> Str c) \<circ> map_of (rev tags))"
    for acc0
  proof (induction tags arbitrary: acc0)
    case Nil
    show ?case by simp
  next
    case (Cons p tags)
    obtain k c where p: "p = (k, c)" by (cases p)
    show ?case by (simp add: p Cons map_of_set_prop map_add_def fun_eq_iff split: option.splits)
  qed
  from this [of "[]"] show ?thesis by (simp add: jsdocTag_def)
qed

lemma map_of_rev_distinct: "distinct (map fst xs) \<Longrightarrow> map_of (rev xs) = map_of xs"
proof (induction xs)
  case Nil
  show ?case by simp
next
  case (Cons p xs)
  obtain k v where p: "p = (k, v)" by (cases p)
  from Cons.prems p have "k \<notin> fst ` set xs" and d: "distinct (map fst xs)" by auto
  then have none: "map_of xs k = None" by (simp add: map_of_eq_None_iff)
  have "map_of (rev (p # xs)) = map_of [(k, v)] ++ map_of (rev xs)"
    by (simp add: p)
  also have "\<dots> = map_of [(k, v)] ++ map_of xs"
    using Cons.IH [OF d] by simp
  also have "\<dots> = map_of (p # xs)"
    using none by (auto simp: p fun_eq_iff map_add_def split: option.splits)
  finally show ?case .
qed

lemma keys_overwrite: "map (fst \<circ> (\<lambda>(k', v'). if k' = k then (k', v) else (k', v'))) ob = map fst ob"
  by (induction ob) auto

lemma keys_insert_index: "fst ` set (insert_index i k v ob) = insert k (fst ` set ob)"
proof (induction ob)
  case Nil
  show ?case by simp
next
  case (Cons p ob)
  obtain k' v' where p: "p = (k', v')" by (cases p)
  show ?case
  proof (cases "array_index k'")
    case None
    then show ?thesis by (auto simp: p)
  next
    case (Some j)
    then show ?thesis using Cons.IH by (cases "j < i") (auto simp: p)
  qed
qed

lemma distinct_insert_index:
  "distinct (map fst ob) \<Longrightarrow> k \<notin> fst ` set ob \<Longrightarrow> distinct (map fst (insert_index i k v ob))"
proof (induction ob)
  case Nil
  show ?case by simp
next
  case (Cons p ob)
  obtain k' v' where p: "p = (k', v')" by (cases p)
  from Cons.prems p have ne: "k' \<noteq> k" and notin: "k \<notin> fst ` set ob" "k' \<notin> fst ` set ob"
    and d: "distinct (map fst ob)" by auto
  have IH: "distinct (map fst (insert_index i k v ob))" using Cons.IH [OF d notin(1)] .
  have k': "k' \<notin> fst ` set (insert_index i k v ob)"
    using notin ne by (simp add: keys_insert_index)
  show ?case
  proof (cases "array_index k'")
    case None
    then show ?thesis using Cons.prems p by auto
  next
    case (Some j)
    then show ?thesis using Cons.prems p IH k' by (cases "j < i") auto
  qed
qed

lemma distinct_set_prop: "distinct (map fst ob) \<Longrightarrow> distinct (map fst (set_prop ob k v))"
  by (auto simp: set_prop_def keys_overwrite distinct_insert_index map_of_eq_None_iff
      split: option.splits)

lemma distinct_spread: "distinct (map fst tgt) \<Longrightarrow> distinct (map fst (spread tgt src))"
  unfolding spread_def
  by (induction src arbitrary: tgt) (auto simp: distinct_set_prop)

lemma distinct_jsdocTag: "distinct (map fst (jsdocTag tags))"
proof -
  have "distinct (map fst acc0) \<Longrightarrow> distinct (map fst (fold (\<lambda>(name, comment) acc.
             set_prop acc name (case comment of None \<Rightarrow> Undefined | Some c \<Rightarrow> Str c)) tags acc0))"
    for acc0
    by (induction tags arbitrary: acc0) (auto simp: distinct_set_prop)
  from this [of "[]"] show ?thesis by (simp add: jsdocTag_def)
qed

lemma distinct_delete_prop: "distinct (map fst ob) \<Longrightarrow> distinct (map fst (delete_prop ob k))"
  by (simp add: delete_prop_def distinct_map_filter)

lemma distinct_copy_with: "distinct (map fst (copy_with h v tags))"
  by (simp add: copy_with_def distinct_spread)

lemma distinct_fold_set_prop:
  "distinct (map fst acc0) \<Longrightarrow>
     distinct (map fst (fold (\<lambda>(name, v) acc. set_prop (spread [] acc) name v) derived acc0))"
  by (induction derived arbitrary: acc0) (auto simp: distinct_set_prop distinct_spread)

lemma map_of_copy_with:
  "distinct (map fst (own_entries h v)) \<Longrightarrow>
     map_of (copy_with h v (jsdocTag tags)) = map_of (own_entries h v) ++ map_of (jsdocTag tags)"
  by (simp add: copy_with_def map_of_spread map_of_rev_distinct distinct_jsdocTag)

lemma map_of_properties_fold:
  "distinct (map fst acc0) \<Longrightarrow>
   map_of (fold (\<lambda>(name, v) acc. set_prop (spread [] acc) name v) derived acc0) =
     map_of acc0 ++ map_of (rev derived)"
proof (induction derived arbitrary: acc0)
  case Nil
  show ?case by simp
next
  case (Cons p derived)
  obtain k v where p: "p = (k, v)" by (cases p)
  have d: "distinct (map fst (set_prop (spread [] acc0) k v))"
    by (simp add: distinct_set_prop distinct_spread)
  have "map_of (set_prop (spread [] acc0) k v) = (map_of acc0)(k \<mapsto> v)"
    using Cons.prems by (simp add: map_of_set_prop map_of_spread map_of_rev_distinct)
  with Cons.IH [OF d] show ?case
    by (simp add: p map_add_def fun_eq_iff split: option.splits)
qed


section \<open>Every result of \<^verbatim>\<open>getTypeDefinition\<close> is a fresh object\<close>

text \<open>
  Each \<^verbatim>\<open>return\<close> of \<^verbatim>\<open>getTypeDefinition\<close> is an object literal, so a call
  that returns has just allocated the object it returns.
\<close>

definition last_ref :: "jsval \<times> state \<Rightarrow> bool" where
  "last_ref r = (case r of (v, s') \<Rightarrow> heap s' \<noteq> [] \<and> v = Ref (length (heap s') - 1))"

lemma new_object_last_ref: "new_object ob s = Inr r \<Longrightarrow> last_ref r"
  by (auto simp: new_object_def last_ref_def)

lemma typeLiteral_last_ref: "typeLiteral d ms tg s = Inr r \<Longrightarrow> last_ref r"
  by (auto simp: typeLiteral_def Let_def elim!: andThenE dest: new_object_last_ref)

lemma unionType_last_ref: "unionType d ts tg s = Inr r \<Longrightarrow> last_ref r"
  by (auto simp: unionType_def Let_def elim!: andThenE dest: new_object_last_ref split: if_splits)

lemma conditionalType_last_ref: "conditionalType d e t tb fb tg s = Inr r \<Longrightarrow> last_ref r"
  by (auto simp: conditionalType_def Let_def elim!: andThenE dest: new_object_last_ref split: if_splits)

lemma typeReference_last_ref: "typeReference n d e name args tg s = Inr r \<Longrightarrow> last_ref r"
  unfolding typeReference_def
  by (auto elim!: andThenE dest: new_object_last_ref split: if_splits)

lemma getTypeDefinition_body_last_ref: "getTypeDefinition_body n d e t s = Inr r \<Longrightarrow> last_ref r"
  unfolding getTypeDefinition_body_def Let_def
  by (auto elim!: andThenE dest: new_object_last_ref typeLiteral_last_ref unionType_last_ref
        conditionalType_last_ref typeReference_last_ref split: tkind.splits literal.splits operator.splits)

lemma getTypeDefinition_last_ref: "getTypeDefinition n e t s = Inr r \<Longrightarrow> last_ref r"
  by (cases n) (auto dest: getTypeDefinition_body_last_ref)

lemma getTypeDefinition_Ref:
  assumes "getTypeDefinition n e t s = Inr (v, s')"
  shows "v = Ref (length (heap s') - 1) \<and> length (heap s') - 1 < length (heap s')"
  using getTypeDefinition_last_ref [OF assms] by (simp add: last_ref_def)

section \<open>The heap invariant: objects have distinct keys\<close>

text \<open>
  The list that stands for an object never names a key twice. The invariant holds of the
  empty heap and every operation of the program keeps it; under it a shallow copy has
  the fields of the object it copies.
\<close>

definition heap_ok :: "obj list \<Rightarrow> bool" where
  "heap_ok h = list_all (\<lambda>ob. distinct (map fst ob)) h"

lemma heap_ok_simps [simp]:
  "heap_ok []"
  "heap_ok (ob # h) \<longleftrightarrow> distinct (map fst ob) \<and> heap_ok h"
  "heap_ok (h @ h') \<longleftrightarrow> heap_ok h \<and> heap_ok h'"
  by (auto simp: heap_ok_def)

lemma heap_ok_append: "heap_ok (h @ [ob]) \<longleftrightarrow> heap_ok h \<and> distinct (map fst ob)"
  by (simp add: heap_ok_def)

lemma heap_ok_update: "heap_ok h \<Longrightarrow> distinct (map fst ob) \<Longrightarrow> heap_ok (h[r := ob])"
  unfolding heap_ok_def list_all_iff using set_update_subset_insert [of h r ob] by auto

lemma heap_ok_get: "heap_ok h \<Longrightarrow> distinct (map fst (heap_get h r))"
  by (auto simp: heap_ok_def heap_get_def list_all_iff)

lemma new_object_ok:
  "new_object ob s = Inr (v, s') \<Longrightarrow> heap_ok (heap s) \<Longrightarrow> distinct (map fst ob) \<Longrightarrow> heap_ok (heap s')"
  by (auto simp: new_object_def heap_ok_append)

lemma js_delete_ok: "js_delete v k s = Inr s' \<Longrightarrow> heap_ok (heap s) \<Longrightarrow> heap_ok (heap s')"
  by (auto simp: js_delete_def heap_ok_update heap_ok_get distinct_delete_prop
      split: jsval.splits if_splits)

lemma js_set_ok: "js_set v k x s = Inr s' \<Longrightarrow> heap_ok (heap s) \<Longrightarrow> heap_ok (heap s')"
  by (auto simp: js_set_def heap_ok_update heap_ok_get distinct_set_prop split: jsval.splits)

lemma mapM_ok:
  assumes "\<forall>x s v s'. f x s = Inr (v, s') \<longrightarrow> heap_ok (heap s) \<longrightarrow> heap_ok (heap s')"
  shows "mapM f xs s = Inr (vs, s') \<Longrightarrow> heap_ok (heap s) \<Longrightarrow> heap_ok (heap s')"
proof (induction xs arbitrary: s vs)
  case Nil
  then show ?case by simp
next
  case (Cons x xs)
  from Cons.prems(1) obtain v s1 vs' where
    f: "f x s = Inr (v, s1)" and m: "mapM f xs s1 = Inr (vs', s')"
    by (auto elim!: andThenE)
  from assms f Cons.prems(2) have "heap_ok (heap s1)" by blast
  then show ?case using Cons.IH [OF m] by simp
qed

lemma pick_object_ok:
  assumes "pick_object def keys s = Inr (v, s')" and "heap_ok (heap s)"
  shows "heap_ok (heap s')"
proof -
  let ?f = "\<lambda>p s0. andThen (js_get (heap s0) def ''properties'') (\<lambda>dp.
                andThen (js_get (heap s0) dp (toString p)) (\<lambda>x. Inr ((toString p, x), s0)))"
  from assms(1) obtain ks picked s0 properties s1 ob where
    m: "mapM ?f ks s = Inr (picked, s0)" and
    n1: "new_object (spread [] picked) s0 = Inr (properties, s1)" and
    n2: "new_object (set_prop (set_prop (spread [] (own_entries (heap s1) def)) ''properties'' properties)
          ''required'' ob) s1 = Inr (v, s')"
    unfolding pick_object_def by (auto elim!: andThenE)
  have "\<forall>x s v s'. ?f x s = Inr (v, s') \<longrightarrow> heap_ok (heap s) \<longrightarrow> heap_ok (heap s')"
    by (auto elim!: andThenE)
  from mapM_ok [OF this m assms(2)] have "heap_ok (heap s0)" .
  with n1 n2 show ?thesis
    by (auto elim!: new_objectE simp: distinct_set_prop distinct_spread)
qed

lemma drop_object_ok:
  assumes "drop_object def keys s = Inr (v, s')" and "heap_ok (heap s)"
  shows "heap_ok (heap s')"
proof -
  let ?f = "\<lambda>p s0. andThen (js_get (heap s0) def ''properties'') (\<lambda>dp.
                andThen (js_delete dp (toString p) s0) (\<lambda>s1. Inr ((), s1)))"
  from assms(1) obtain ks units s1 ob where
    m: "mapM ?f ks s = Inr (units, s1)" and
    n: "new_object (set_prop (spread [] (own_entries (heap s1) def)) ''required'' ob) s1 = Inr (v, s')"
    unfolding drop_object_def by (auto elim!: andThenE)
  have "\<forall>x s v s'. ?f x s = Inr (v, s') \<longrightarrow> heap_ok (heap s) \<longrightarrow> heap_ok (heap s')"
    by (auto elim!: andThenE dest: js_delete_ok)
  from mapM_ok [OF this m assms(2)] have "heap_ok (heap s1)" .
  with n show ?thesis
    by (auto elim!: new_objectE simp: distinct_set_prop distinct_spread)
qed

lemma project_children_ok:
  assumes step: "\<forall>x s v s'. project x s = Inr (v, s') \<longrightarrow> heap_ok (heap s) \<longrightarrow> heap_ok (heap s')"
    and run: "project_children project def field s = Inr (v, s')"
    and ok: "heap_ok (heap s)"
  shows "heap_ok (heap s')"
proof -
  from run obtain children projected s1 where
    m: "mapM project children s = Inr (projected, s1)" and
    n: "new_object (set_prop (spread [] (own_entries (heap s) def)) ''allOf'' (Arr projected)) s1 = Inr (v, s')"
    unfolding project_children_def by (auto elim!: andThenE)
  have "heap_ok (heap s1)"
    by (rule mapM_ok [OF step m ok])
  with n show ?thesis
    by (auto elim!: new_objectE simp: distinct_set_prop distinct_spread)
qed

lemma pickProperties_ok:
  "pickProperties n def keys s = Inr (v, s') \<Longrightarrow> heap_ok (heap s) \<Longrightarrow> heap_ok (heap s')"
proof (induction n arbitrary: def s v s')
  case 0
  then show ?case by simp
next
  case (Suc n)
  have step: "\<forall>x s v s'. pickProperties n x keys s = Inr (v, s') \<longrightarrow> heap_ok (heap s) \<longrightarrow> heap_ok (heap s')"
    using Suc.IH by blast
  note pc = project_children_ok [OF step _ Suc.prems(2)]
  from Suc.prems show ?case
    apply (auto elim!: andThenE split: if_splits)
       apply (erule (1) pick_object_ok)
      apply (erule pc)+
    done
qed

lemma dropProperties_ok:
  "dropProperties n def keys s = Inr (v, s') \<Longrightarrow> heap_ok (heap s) \<Longrightarrow> heap_ok (heap s')"
proof (induction n arbitrary: def s v s')
  case 0
  then show ?case by simp
next
  case (Suc n)
  have step: "\<forall>x s v s'. dropProperties n x keys s = Inr (v, s') \<longrightarrow> heap_ok (heap s) \<longrightarrow> heap_ok (heap s')"
    using Suc.IH by blast
  note pc = project_children_ok [OF step _ Suc.prems(2)]
  from Suc.prems show ?case
    apply (auto elim!: andThenE split: if_splits)
       apply (erule (1) drop_object_ok)
      apply (erule pc)+
    done
qed

definition keeps_ok :: "('a \<Rightarrow> state \<Rightarrow> error + ('b \<times> state)) \<Rightarrow> bool" where
  "keeps_ok f = (\<forall>x s v s'. f x s = Inr (v, s') \<longrightarrow> heap_ok (heap s) \<longrightarrow> heap_ok (heap s'))"

lemma keeps_okD: "keeps_ok f \<Longrightarrow> f x s = Inr (v, s') \<Longrightarrow> heap_ok (heap s) \<longrightarrow> heap_ok (heap s')"
  by (auto simp: keeps_ok_def)

lemma mapM_keeps: "keeps_ok f \<Longrightarrow> mapM f xs s = Inr (vs, s') \<Longrightarrow> heap_ok (heap s) \<longrightarrow> heap_ok (heap s')"
  using mapM_ok [of f xs s vs s'] by (auto simp: keeps_ok_def)

lemma new_object_imp:
  "new_object ob s = Inr (v, s') \<Longrightarrow> heap_ok (heap s) \<longrightarrow> distinct (map fst ob) \<longrightarrow> heap_ok (heap s')"
  by (auto simp: new_object_def)

lemma js_delete_imp: "js_delete v k s = Inr s' \<Longrightarrow> heap_ok (heap s) \<longrightarrow> heap_ok (heap s')"
  by (auto dest: js_delete_ok)

lemma js_set_imp: "js_set v k x s = Inr s' \<Longrightarrow> heap_ok (heap s) \<longrightarrow> heap_ok (heap s')"
  by (auto dest: js_set_ok)

lemma pickProperties_imp:
  "pickProperties n def keys s = Inr (v, s') \<Longrightarrow> heap_ok (heap s) \<longrightarrow> heap_ok (heap s')"
  by (auto dest: pickProperties_ok)

lemma dropProperties_imp:
  "dropProperties n def keys s = Inr (v, s') \<Longrightarrow> heap_ok (heap s) \<longrightarrow> heap_ok (heap s')"
  by (auto dest: dropProperties_ok)

lemma deriveArgument_imp:
  "keeps_ok d \<Longrightarrow> deriveArgument d args i s = Inr (v, s') \<Longrightarrow> heap_ok (heap s) \<longrightarrow> heap_ok (heap s')"
  by (auto simp: deriveArgument_def elim!: andThenE dest: keeps_okD)

lemma resolve_via_imp:
  "keeps_ok d \<Longrightarrow> resolve_via d e name s = Inr (v, s') \<Longrightarrow> heap_ok (heap s) \<longrightarrow> heap_ok (heap s')"
  by (auto simp: resolve_via_def Let_def elim!: andThenE dest: keeps_okD split: if_splits option.splits)

lemmas distinct_built = distinct_set_prop distinct_spread distinct_copy_with distinct_fold_set_prop

lemma typeLiteral_imp:
  assumes d: "keeps_ok d" and run: "typeLiteral d ms tg s = Inr (v, s')"
  shows "heap_ok (heap s) \<longrightarrow> heap_ok (heap s')"
proof -
  let ?f = "\<lambda>(name, ty, questionToken) s0.
                  case ty of
                    None \<Rightarrow> Inl TypeError
                  | Some t \<Rightarrow> andThen (d t s0) (\<lambda>(v, s1). Inr ((name, v), s1))"
  have k: "keeps_ok ?f"
    using d by (auto simp: keeps_ok_def elim!: andThenE split: option.splits)
  from run show ?thesis
    unfolding typeLiteral_def Let_def
    by (auto elim!: andThenE dest!: mapM_keeps [OF k] new_object_imp simp: distinct_built)
qed

lemma unionType_imp:
  "keeps_ok d \<Longrightarrow> unionType d ts tg s = Inr (v, s') \<Longrightarrow> heap_ok (heap s) \<longrightarrow> heap_ok (heap s')"
  unfolding unionType_def Let_def
  by (auto elim!: andThenE dest!: mapM_keeps new_object_imp simp: distinct_built split: if_splits)

lemma conditionalType_imp:
  "keeps_ok d \<Longrightarrow> conditionalType d e t tb fb tg s = Inr (v, s') \<Longrightarrow> heap_ok (heap s) \<longrightarrow> heap_ok (heap s')"
  unfolding conditionalType_def Let_def
  by (auto elim!: andThenE dest!: keeps_okD new_object_imp simp: distinct_built split: if_splits)

lemma record_entries_keeps:
  "keeps_ok (\<lambda>k s0. andThen (new_object (spread [] (own_entries (heap s0) recordType)) s0)
                      (\<lambda>(v, s3). Inr ((toString k, v), s3)))"
  by (auto simp: keeps_ok_def elim!: andThenE dest!: new_object_imp simp: distinct_built)

lemma typeReference_imp:
  assumes d: "keeps_ok d" and run: "typeReference n d e name args tg s = Inr (v, s')"
  shows "heap_ok (heap s) \<longrightarrow> heap_ok (heap s')"
  using run unfolding typeReference_def
  by (auto elim!: andThenE
        dest!: deriveArgument_imp [OF d] resolve_via_imp [OF d] mapM_keeps [OF record_entries_keeps]
               new_object_imp js_delete_imp js_set_imp pickProperties_imp dropProperties_imp
        simp: distinct_built split: if_splits)

lemma getTypeDefinition_body_imp:
  assumes d: "keeps_ok d" and run: "getTypeDefinition_body n d e t s = Inr (v, s')"
  shows "heap_ok (heap s) \<longrightarrow> heap_ok (heap s')"
  using run unfolding getTypeDefinition_body_def Let_def
  by (auto elim!: andThenE
        dest!: keeps_okD [OF d] mapM_keeps [OF d] typeLiteral_imp [OF d] unionType_imp [OF d]
               conditionalType_imp [OF d] typeReference_imp [OF d] new_object_imp
        simp: distinct_built split: tkind.splits literal.splits operator.splits)

lemma getTypeDefinition_keeps: "keeps_ok (getTypeDefinition n e)"
proof (induction n)
  case 0
  show ?case by (simp add: keeps_ok_def)
next
  case (Suc n)
  show ?case
    unfolding keeps_ok_def using getTypeDefinition_body_imp [OF Suc] by auto
qed

lemma getTypeDefinition_ok:
  "getTypeDefinition n e t s = Inr (v, s') \<Longrightarrow> heap_ok (heap s) \<Longrightarrow> heap_ok (heap s')"
  using getTypeDefinition_keeps [of n e] by (auto simp: keeps_ok_def)

lemma copy_with_fields:
  "heap_ok h \<Longrightarrow>
     map_of (copy_with h (Ref r) (jsdocTag tags)) = map_of (heap_get h r) ++ map_of (jsdocTag tags)"
  by (simp add: map_of_copy_with own_entries_def heap_ok_get)

lemma copy_fields: "heap_ok h \<Longrightarrow> obj_get (spread [] (heap_get h r)) k = obj_get (heap_get h r) k"
  by (simp add: obj_get_def map_of_spread map_of_rev_distinct heap_ok_get)

section \<open>Unions, object literals and cached references\<close>

lemma map_filter_all:
  "(\<forall>x \<in> set xs. f x \<noteq> None) \<Longrightarrow> List.map_filter f xs = map (the \<circ> f) xs"
  by (induction xs) (auto simp: List.map_filter_def)



lemma unionType_strings:
  assumes "\<forall>t \<in> set types. \<exists>text. kind t = LiteralType (StringLiteral text)"
  shows "unionType d types tg s = new_object (spread [(''enum'', Arr (map literalValue types))] tg) s"
proof -
  have lit: "\<forall>t \<in> set types. literalOf t \<noteq> None"
    using assms by (auto simp: literalOf_def)
  then have literals: "List.map_filter literalOf types = map (the \<circ> literalOf) types"
    by (rule map_filter_all)
  let ?str = "\<lambda>l. case l of StringLiteral text \<Rightarrow> Some (Str text) | _ \<Rightarrow> None"
  have "\<forall>l \<in> set (map (the \<circ> literalOf) types). ?str l \<noteq> None"
    using assms by (auto simp: literalOf_def)
  then have strings: "List.map_filter ?str (map (the \<circ> literalOf) types) = map (the \<circ> ?str) (map (the \<circ> literalOf) types)"
    by (rule map_filter_all)
  have vals: "map (the \<circ> ?str) (map (the \<circ> literalOf) types) = map literalValue types"
    using assms by (auto simp: literalOf_def literalValue_def)
  show ?thesis
    unfolding unionType_def Let_def literals strings vals by simp
qed



lemma required_names:
  "map (\<lambda>(name, ty, questionToken). Str name)
     (filter (\<lambda>(name, ty, questionToken). \<not> questionToken) (propertySignatures members)) =
   map Str [name. PropertySignature name ty False \<leftarrow> members]"
  by (induction members) (auto simp: propertySignatures_def List.map_filter_def split: member.splits)

lemma signature_names:
  "map fst (propertySignatures members) = [name. PropertySignature name ty questionToken \<leftarrow> members]"
  by (induction members) (auto simp: propertySignatures_def List.map_filter_def split: member.splits)

lemma mapM_member_names:
  "mapM (\<lambda>(name, ty, questionToken) s0.
            case ty of None \<Rightarrow> Inl TypeError
                     | Some t \<Rightarrow> andThen (d t s0) (\<lambda>(v, s1). Inr ((name, v), s1)))
     signatures s = Inr (derived, s1) \<Longrightarrow> map fst derived = map fst signatures"
  by (induction signatures arbitrary: s derived)
     (auto elim!: andThenE split: option.splits)

lemma heap_get_append_last [simp]: "heap_get (h @ [ob]) (length h) = ob"
  by (simp add: heap_get_def)

lemma heap_get_update [simp]: "r < length h \<Longrightarrow> heap_get (h[r := ob]) r = ob"
  by (simp add: heap_get_def)

lemma js_get_Ref [simp]: "js_get h (Ref r) k = Inr (obj_get (heap_get h r) k)"
  by (simp add: js_get_def)

lemma own_entries_Ref [simp]: "own_entries h (Ref r) = heap_get h r"
  by (simp add: own_entries_def)

lemma truthy_simps [simp]:
  "truthy (Arr xs)" "\<not> truthy Undefined" "truthy (Ref r)"
  by (simp_all add: truthy_def)

lemma spread_Nil [simp]: "spread tgt [] = tgt"
  by (simp add: spread_def)

lemma jsdocTag_Nil [simp]: "jsdocTag [] = []"
  by (simp add: jsdocTag_def)

lemma literalKeys_derive:
  assumes "literalKeys K = Some names"
  shows "getTypeDefinition (Suc n) e K s = new_object [(''enum'', Arr (map Str names))] s"
proof (cases K rule: literalKeys.cases)
  case (1 k)
  with assms show ?thesis by (auto simp: getTypeDefinition_body_def)
next
  case (2 ts)
  with assms have some: "\<forall>t \<in> set ts. stringLiteralText t \<noteq> None"
    and names: "names = map (\<lambda>t. the (stringLiteralText t)) ts"
    by (auto simp: list_all_iff split: if_splits)
  have all: "\<forall>t \<in> set ts. \<exists>text. kind t = LiteralType (StringLiteral text)"
  proof
    fix t assume "t \<in> set ts"
    with some have "stringLiteralText t \<noteq> None" by blast
    then show "\<exists>text. kind t = LiteralType (StringLiteral text)"
      by (auto simp: stringLiteralText_def split: tkind.splits literal.splits)
  qed
  have "map literalValue ts = map Str names"
    using all by (auto simp: names literalValue_def stringLiteralText_def)
  with 2 all show ?thesis
    by (simp add: getTypeDefinition_body_def unionType_strings)
qed (use assms in simp_all)

lemma derive_cached_reference:
  assumes "name \<notin> set operatorNames" and "truthy (obj_get (resolved s) name)"
  shows "getTypeDefinition (Suc n) e (TypeNode [] (TypeReference name None)) s =
     new_object (spread [] (own_entries (heap s) (obj_get (resolved s) name))) s"
  using assms
  by (simp add: getTypeDefinition_body_def typeReference_def operatorNames_def resolve_via_def
      copy_with_def)

lemma delete_all:
  assumes "c < length (heap s)" "p < length (heap s)" "p \<noteq> c"
    and "obj_get (heap s ! c) ''properties'' = Ref p"
  shows "mapM (\<lambda>k s0. andThen (js_get (heap s0) (Ref c) ''properties'') (\<lambda>dp.
                andThen (js_delete dp (toString k) s0) (\<lambda>s1. Inr ((), s1)))) (map Str names) s =
     Inr (map (\<lambda>k. ()) names,
          s\<lparr>heap := (heap s)[p := fold (\<lambda>k ob. delete_prop ob k) names (heap s ! p)]\<rparr>)"
  using assms
proof (induction names arbitrary: s)
  case Nil
  then show ?case by simp
next
  case (Cons k names)
  let ?s1 = "s\<lparr>heap := (heap s)[p := delete_prop (heap s ! p) k]\<rparr>"
  have step: "andThen (js_get (heap s) (Ref c) ''properties'') (\<lambda>dp.
                andThen (js_delete dp k s) (\<lambda>s1. Inr ((), s1))) = Inr ((), ?s1)"
    using Cons.prems by (simp add: js_get_def obj_get_def heap_get_def js_delete_def del: js_get_Ref)
  have IH: "mapM (\<lambda>k s0. andThen (js_get (heap s0) (Ref c) ''properties'') (\<lambda>dp.
                andThen (js_delete dp (toString k) s0) (\<lambda>s1. Inr ((), s1)))) (map Str names) ?s1 =
     Inr (map (\<lambda>k. ()) names,
          ?s1\<lparr>heap := (heap ?s1)[p := fold (\<lambda>k ob. delete_prop ob k) names (heap ?s1 ! p)]\<rparr>)"
    using Cons.prems by (intro Cons.IH) simp_all
  show ?case
    using Cons.prems by (simp add: step IH del: js_get_Ref)
qed

lemma drop_object_strings:
  assumes "c < length (heap s)" "p < length (heap s)" "p \<noteq> c"
    and "obj_get (heap s ! c) ''properties'' = Ref p"
    and "obj_get (heap s ! c) ''required'' = Arr rs"
  shows "drop_object (Ref c) (Arr (map Str names)) s =
     new_object (set_prop (spread [] (heap s ! c)) ''required''
                   (Arr (filter (\<lambda>x. x \<notin> Str ` set names) rs)))
       (s\<lparr>heap := (heap s)[p := fold (\<lambda>k ob. delete_prop ob k) names (heap s ! p)]\<rparr>)"
  using assms
  apply (simp add: drop_object_def array_elems_def delete_all [OF assms(1-4)] del: js_get_Ref)
  apply (simp add: heap_get_def)
  done

lemma partial_unfold:
  "getTypeDefinition (Suc n) e (TypeNode tags (TypeReference ''Partial'' (Some (T # rest)))) s =
     andThen (getTypeDefinition n e T s) (\<lambda>(v, s1).
     andThen (js_delete v ''required'' s1) (\<lambda>s2.
     new_object (copy_with (heap s2) v (jsdocTag tags)) s2))"
  by (simp add: getTypeDefinition_body_def typeReference_def deriveArgument_def typeArgument_def)

lemma omit_unfold:
  "getTypeDefinition (Suc n) e (TypeNode tags (TypeReference ''Omit'' (Some (T # K # rest)))) s =
     andThen (getTypeDefinition n e T s) (\<lambda>(omitDef, s1).
     andThen (getTypeDefinition n e K s1) (\<lambda>(omitKeys, s2).
     andThen (js_get (heap s2) omitKeys ''enum'') (\<lambda>keys.
     andThen (dropProperties n omitDef keys s2) (\<lambda>(v, s3).
     new_object (copy_with (heap s3) v (jsdocTag tags)) s3))))"
  by (simp add: getTypeDefinition_body_def typeReference_def deriveArgument_def typeArgument_def)

lemma partial_of_cached:
  assumes ok: "heap_ok (heap s)" and name: "name \<notin> set operatorNames"
    and hit: "obj_get (resolved s) name = Ref r" and r: "r < length (heap s)"
  shows "getTypeDefinition (Suc (Suc n)) e
           (TypeNode tags (TypeReference ''Partial'' (Some [TypeNode [] (TypeReference name None)]))) s =
         Inr (Ref (Suc (length (heap s))),
              s\<lparr>heap := heap s @
                 [delete_prop (spread [] (heap_get (heap s) r)) ''required'',
                  spread (spread [] (delete_prop (spread [] (heap_get (heap s) r)) ''required''))
                    (jsdocTag tags)]\<rparr>)"
proof -
  have t: "getTypeDefinition (Suc n) e (TypeNode [] (TypeReference name None)) s =
      Inr (Ref (length (heap s)), s\<lparr>heap := heap s @ [spread [] (heap_get (heap s) r)]\<rparr>)"
    using derive_cached_reference [OF name, of s n e] hit by (simp add: new_object_def)
  show ?thesis
    unfolding partial_unfold t
    by (simp add: js_delete_def new_object_def copy_with_def)
qed

lemma omit_of_cached:
  assumes ok: "heap_ok (heap s)" and name: "name \<notin> set operatorNames"
    and hit: "obj_get (resolved s) name = Ref r" and r: "r < length (heap s)"
    and ty: "obj_get (heap_get (heap s) r) ''type'' = Str ''object''"
    and props: "obj_get (heap_get (heap s) r) ''properties'' = Ref p"
    and p: "p < length (heap s)"
    and req: "obj_get (heap_get (heap s) r) ''required'' = Arr rs"
    and keys: "literalKeys K = Some names"
  shows "getTypeDefinition (Suc (Suc n)) e
           (TypeNode tags (TypeReference ''Omit'' (Some [TypeNode [] (TypeReference name None), K]))) s =
         Inr (Ref (length (heap s) + 3),
              s\<lparr>heap := (heap s)[p := fold (\<lambda>k ob. delete_prop ob k) names (heap_get (heap s) p)] @
                 [spread [] (heap_get (heap s) r),
                  [(''enum'', Arr (map Str names))],
                  set_prop (spread [] (spread [] (heap_get (heap s) r))) ''required''
                    (Arr (filter (\<lambda>x. x \<notin> Str ` set names) rs)),
                  spread (spread [] (set_prop (spread [] (spread [] (heap_get (heap s) r))) ''required''
                    (Arr (filter (\<lambda>x. x \<notin> Str ` set names) rs)))) (jsdocTag tags)]\<rparr>)"
proof -
  let ?L = "length (heap s)"
  let ?c1 = "spread [] (heap_get (heap s) r)"
  let ?e1 = "[(''enum'', Arr (map Str names))]"
  let ?s1 = "s\<lparr>heap := heap s @ [?c1]\<rparr>"
  let ?s2 = "s\<lparr>heap := heap s @ [?c1, ?e1]\<rparr>"
  have t: "getTypeDefinition (Suc n) e (TypeNode [] (TypeReference name None)) s = Inr (Ref ?L, ?s1)"
    using derive_cached_reference [OF name, of s n e] hit by (simp add: new_object_def)
  have k: "getTypeDefinition (Suc n) e K ?s1 = Inr (Ref (Suc ?L), ?s2)"
    by (simp add: literalKeys_derive [OF keys] new_object_def del: getTypeDefinition.simps)
  have enum: "js_get (heap ?s2) (Ref (Suc ?L)) ''enum'' = Inr (Arr (map Str names))"
    by (simp add: heap_get_def nth_append obj_get_def)
  have c1: "heap ?s2 ! ?L = ?c1" by (simp add: nth_append)
  have c1_type: "obj_get ?c1 ''type'' = Str ''object''"
    and c1_props: "obj_get ?c1 ''properties'' = Ref p"
    and c1_req: "obj_get ?c1 ''required'' = Arr rs"
    using ty props req by (simp_all add: copy_fields [OF ok])
  have d: "drop_object (Ref ?L) (Arr (map Str names)) ?s2 =
      new_object (set_prop (spread [] ?c1) ''required'' (Arr (filter (\<lambda>x. x \<notin> Str ` set names) rs)))
        (?s2\<lparr>heap := (heap ?s2)[p := fold (\<lambda>k ob. delete_prop ob k) names (heap ?s2 ! p)]\<rparr>)"
    using p c1_props c1_req
    by (intro drop_object_strings [where c = ?L and s = ?s2, unfolded c1]) simp_all
  have dp: "dropProperties (Suc n) (Ref ?L) (Arr (map Str names)) ?s2 =
      drop_object (Ref ?L) (Arr (map Str names)) ?s2"
    using c1_type by (simp add: heap_get_def nth_append)
  have upd: "(heap ?s2)[p := fold (\<lambda>k ob. delete_prop ob k) names (heap ?s2 ! p)] =
      (heap s)[p := fold (\<lambda>k ob. delete_prop ob k) names (heap_get (heap s) p)] @ [?c1, ?e1]"
    using p by (simp add: list_update_append nth_append heap_get_def)
  show ?thesis
    unfolding omit_unfold t
    apply (simp only: andThen_Inr prod.case k enum dp d upd)
    apply (simp add: new_object_def copy_with_def heap_get_def nth_append)
    done
qed

section \<open>A deeper stack does not change a result\<close>

text \<open>
  A call that returns with room for \<open>n\<close> nested calls returns the same value and
  state with any more room: the bound only decides whether the stack overflows.
\<close>

definition extends ::
  "('a \<Rightarrow> state \<Rightarrow> error + 'b) \<Rightarrow> ('a \<Rightarrow> state \<Rightarrow> error + 'b) \<Rightarrow> bool" where
  "extends f g = (\<forall>x s r. f x s = Inr r \<longrightarrow> g x s = Inr r)"

lemma extendsD: "extends f g \<Longrightarrow> f x s = Inr r \<Longrightarrow> g x s = Inr r"
  by (simp add: extends_def)

lemma mapM_extends:
  assumes "extends f g"
  shows "mapM f xs s = Inr r \<Longrightarrow> mapM g xs s = Inr r"
proof (induction xs arbitrary: s r)
  case Nil
  then show ?case by simp
next
  case (Cons x xs)
  from Cons.prems obtain v s1 vs s2 where
    f: "f x s = Inr (v, s1)" and m: "mapM f xs s1 = Inr (vs, s2)" and r: "r = (v # vs, s2)"
    by (auto elim!: andThenE)
  from extendsD [OF assms f] Cons.IH [OF m] r show ?case by simp
qed

lemma project_children_extends:
  "extends f g \<Longrightarrow> project_children f def field s = Inr r \<Longrightarrow> project_children g def field s = Inr r"
  unfolding project_children_def
  by (auto elim!: andThenE dest!: mapM_extends simp del: js_get_Ref)

lemma pickProperties_mono:
  "pickProperties n def keys s = Inr r \<Longrightarrow> pickProperties (Suc n) def keys s = Inr r"
proof (induction n arbitrary: def s r)
  case 0
  then show ?case by simp
next
  case (Suc n)
  have ext: "extends (\<lambda>x. pickProperties n x keys) (\<lambda>x. pickProperties (Suc n) x keys)"
    unfolding extends_def using Suc.IH by blast
  note pc = project_children_extends [OF ext]
  from Suc.prems show ?case
    apply (subst pickProperties.simps)
    apply (subst (asm) pickProperties.simps)
    apply (auto elim!: andThenE split: if_splits dest!: pc simp del: pickProperties.simps js_get_Ref)
    done
qed

lemma dropProperties_mono:
  "dropProperties n def keys s = Inr r \<Longrightarrow> dropProperties (Suc n) def keys s = Inr r"
proof (induction n arbitrary: def s r)
  case 0
  then show ?case by simp
next
  case (Suc n)
  have ext: "extends (\<lambda>x. dropProperties n x keys) (\<lambda>x. dropProperties (Suc n) x keys)"
    unfolding extends_def using Suc.IH by blast
  note pc = project_children_extends [OF ext]
  from Suc.prems show ?case
    apply (subst dropProperties.simps)
    apply (subst (asm) dropProperties.simps)
    apply (auto elim!: andThenE split: if_splits dest!: pc simp del: dropProperties.simps js_get_Ref)
    done
qed

lemma deriveArgument_extends:
  "extends d d' \<Longrightarrow> deriveArgument d args i s = Inr r \<Longrightarrow> deriveArgument d' args i s = Inr r"
  by (auto simp: deriveArgument_def elim!: andThenE dest: extendsD)

lemma resolve_via_extends:
  "extends d d' \<Longrightarrow> resolve_via d e name s = Inr r \<Longrightarrow> resolve_via d' e name s = Inr r"
  by (auto simp: resolve_via_def Let_def elim!: andThenE dest!: extendsD split: if_splits option.splits)

lemma typeLiteral_extends:
  assumes d: "extends d d'" and run: "typeLiteral d ms tg s = Inr r"
  shows "typeLiteral d' ms tg s = Inr r"
proof -
  let ?f = "\<lambda>d. \<lambda>(name, ty, questionToken) s0.
                  case ty of
                    None \<Rightarrow> Inl TypeError
                  | Some t \<Rightarrow> andThen (d t s0) (\<lambda>(v, s1). Inr ((name, v), s1))"
  have k: "extends (?f d) (?f d')"
    using d by (auto simp: extends_def elim!: andThenE split: option.splits)
  from run show ?thesis
    unfolding typeLiteral_def Let_def
    by (auto elim!: andThenE dest!: mapM_extends [OF k])
qed

lemma unionType_extends:
  "extends d d' \<Longrightarrow> unionType d ts tg s = Inr r \<Longrightarrow> unionType d' ts tg s = Inr r"
  unfolding unionType_def Let_def
  by (auto elim!: andThenE dest!: mapM_extends split: if_splits)

lemma conditionalType_extends:
  "extends d d' \<Longrightarrow> conditionalType d e t tb fb tg s = Inr r \<Longrightarrow> conditionalType d' e t tb fb tg s = Inr r"
  unfolding conditionalType_def Let_def
  by (auto elim!: andThenE dest!: extendsD split: if_splits)

definition le_res :: "error + 'a \<Rightarrow> error + 'a \<Rightarrow> bool" where
  "le_res r r' = (\<forall>y. r = Inr y \<longrightarrow> r' = Inr y)"

lemma le_res_refl: "le_res r r"
  by (simp add: le_res_def)

lemma le_res_andThen:
  "le_res r r' \<Longrightarrow> (\<And>x. le_res (f x) (g x)) \<Longrightarrow> le_res (andThen r f) (andThen r' g)"
  by (cases r; cases r') (auto simp: le_res_def)

lemma le_res_if:
  "(c \<Longrightarrow> le_res a a') \<Longrightarrow> (\<not> c \<Longrightarrow> le_res b b') \<Longrightarrow>
     le_res (if c then a else b) (if c then a' else b')"
  by simp

lemma le_res_prod:
  "(\<And>a b. le_res (f a b) (g a b)) \<Longrightarrow> le_res (case p of (a, b) \<Rightarrow> f a b) (case p of (a, b) \<Rightarrow> g a b)"
  by (cases p) simp

lemma le_res_extends: "extends f g \<Longrightarrow> le_res (f x s) (g x s)"
  by (simp add: le_res_def extends_def)

lemma le_res_mapM: "extends f g \<Longrightarrow> le_res (mapM f xs s) (mapM g xs s)"
  using mapM_extends [of f g] by (auto simp: le_res_def)

lemma le_res_deriveArgument:
  "extends d d' \<Longrightarrow> le_res (deriveArgument d args i s) (deriveArgument d' args i s)"
  using deriveArgument_extends [of d d'] by (auto simp: le_res_def)

lemma le_res_resolve_via:
  "extends d d' \<Longrightarrow> le_res (resolve_via d e name s) (resolve_via d' e name s)"
  using resolve_via_extends [of d d'] by (auto simp: le_res_def)

lemma le_res_pickProperties: "le_res (pickProperties n def keys s) (pickProperties (Suc n) def keys s)"
  using pickProperties_mono [of n] by (auto simp: le_res_def simp del: pickProperties.simps)

lemma le_res_dropProperties: "le_res (dropProperties n def keys s) (dropProperties (Suc n) def keys s)"
  using dropProperties_mono [of n] by (auto simp: le_res_def simp del: dropProperties.simps)

lemma typeReference_extends:
  assumes d: "extends d d'"
  shows "le_res (typeReference n d e name args tg s) (typeReference (Suc n) d' e name args tg s)"
  unfolding typeReference_def
  by (intro le_res_if le_res_andThen le_res_prod le_res_deriveArgument [OF d] le_res_resolve_via [OF d]
        le_res_pickProperties le_res_dropProperties le_res_refl)

lemma le_res_typeLiteral:
  "extends d d' \<Longrightarrow> le_res (typeLiteral d ms tg s) (typeLiteral d' ms tg s)"
  using typeLiteral_extends [of d d'] by (auto simp: le_res_def)

lemma le_res_unionType:
  "extends d d' \<Longrightarrow> le_res (unionType d ts tg s) (unionType d' ts tg s)"
  using unionType_extends [of d d'] by (auto simp: le_res_def)

lemma le_res_conditionalType:
  "extends d d' \<Longrightarrow> le_res (conditionalType d e t tb fb tg s) (conditionalType d' e t tb fb tg s)"
  using conditionalType_extends [of d d'] by (auto simp: le_res_def)

lemma getTypeDefinition_body_extends:
  assumes d: "extends d d'"
  shows "le_res (getTypeDefinition_body n d e t s) (getTypeDefinition_body (Suc n) d' e t s)"
  by (cases "kind t";
      simp add: getTypeDefinition_body_def Let_def le_res_refl split: literal.splits operator.splits;
      intro conjI impI allI le_res_andThen le_res_prod le_res_extends [OF d] le_res_mapM [OF d]
        le_res_typeLiteral [OF d] le_res_unionType [OF d] le_res_conditionalType [OF d]
        typeReference_extends [OF d] le_res_refl)

lemma getTypeDefinition_Suc:
  "getTypeDefinition n e t s = Inr r \<Longrightarrow> getTypeDefinition (Suc n) e t s = Inr r"
proof (induction n arbitrary: t s r)
  case 0
  then show ?case by simp
next
  case (Suc n)
  have ext: "extends (getTypeDefinition n e) (getTypeDefinition (Suc n) e)"
    unfolding extends_def using Suc.IH by blast
  have "le_res (getTypeDefinition (Suc n) e t s) (getTypeDefinition (Suc (Suc n)) e t s)"
    using getTypeDefinition_body_extends [OF ext, of n e t s]
    by (simp only: getTypeDefinition.simps)
  with Suc.prems show ?case
    unfolding le_res_def by blast
qed

lemma getTypeDefinition_mono:
  "getTypeDefinition n e t s = Inr r \<Longrightarrow> n \<le> m \<Longrightarrow> getTypeDefinition m e t s = Inr r"
proof (induction m)
  case 0
  then show ?case by simp
next
  case (Suc m)
  show ?case
  proof (cases "n = Suc m")
    case True
    with Suc.prems show ?thesis by simp
  next
    case False
    with Suc.prems have "n \<le> m" by simp
    from getTypeDefinition_Suc [OF Suc.IH [OF Suc.prems(1) this]] show ?thesis .
  qed
qed

section \<open>The claims\<close>

text \<open>
  Throughout, \<open>getTypeDefinition (Suc n)\<close> is a call with room for \<open>n\<close> further
  nested calls, and a schema is read through the fields of the object a reference
  points to. Every branch of \<^verbatim>\<open>getTypeDefinition\<close> spreads the documentation tags
  of the node over its result last; the statements below carry that merge as
  \<open>jsdocTag tags\<close>.
\<close>



text \<open>
  \<^bold>\<open>C2.\<close> For a conditional type: when the type checker's types of the true and the
  false branch are the same, \<^verbatim>\<open>getTypeDefinition\<close> fails with \<open>BadConditional\<close>;
  otherwise it derives the true branch when the type of the whole conditional is the
  same as that of the true branch, and the false branch otherwise, and returns a copy of
  that schema under the node's tags. Two types are the same iff their flags are equal and
  their printed forms are equal. The copy has the fields of the derived schema, the
  tags written over them.
\<close>

theorem conditional_derives_selected_branch:
  "getTypeDefinition (Suc n) e (TypeNode tags (ConditionalType checked ext trueBranch falseBranch)) s =
     (if isSameType (getTypeFromTypeNode e trueBranch) (getTypeFromTypeNode e falseBranch)
      then Inl BadConditional
      else andThen
             (getTypeDefinition n e
                (if isSameType
                      (getTypeFromTypeNode e (TypeNode tags (ConditionalType checked ext trueBranch falseBranch)))
                      (getTypeFromTypeNode e trueBranch)
                 then trueBranch else falseBranch) s)
             (\<lambda>(v, s1). new_object (copy_with (heap s1) v (jsdocTag tags)) s1)) \<and>
   (isSameType a b \<longleftrightarrow> flags a = flags b \<and> typeToString a = typeToString b) \<and>
   (heap_ok (heap s) \<longrightarrow> getTypeDefinition n e X s = Inr (v, s1) \<longrightarrow>
      (\<exists>r. v = Ref r \<and>
         map_of (copy_with (heap s1) v (jsdocTag tags)) =
           map_of (heap_get (heap s1) r) ++ map_of (jsdocTag tags)))"
proof (intro conjI impI)
  show "getTypeDefinition (Suc n) e (TypeNode tags (ConditionalType checked ext trueBranch falseBranch)) s =
     (if isSameType (getTypeFromTypeNode e trueBranch) (getTypeFromTypeNode e falseBranch)
      then Inl BadConditional
      else andThen
             (getTypeDefinition n e
                (if isSameType
                      (getTypeFromTypeNode e (TypeNode tags (ConditionalType checked ext trueBranch falseBranch)))
                      (getTypeFromTypeNode e trueBranch)
                 then trueBranch else falseBranch) s)
             (\<lambda>(v, s1). new_object (copy_with (heap s1) v (jsdocTag tags)) s1))"
    by (simp add: getTypeDefinition_body_def conditionalType_def Let_def)
  show "isSameType a b \<longleftrightarrow> flags a = flags b \<and> typeToString a = typeToString b"
    by (simp add: isSameType_def)
next
  assume ok: "heap_ok (heap s)" and run: "getTypeDefinition n e X s = Inr (v, s1)"
  from getTypeDefinition_ok [OF run ok] have "heap_ok (heap s1)" .
  moreover from getTypeDefinition_Ref [OF run] obtain r where "v = Ref r" by blast
  ultimately show "\<exists>r. v = Ref r \<and>
         map_of (copy_with (heap s1) v (jsdocTag tags)) =
           map_of (heap_get (heap s1) r) ++ map_of (jsdocTag tags)"
    by (auto simp: copy_with_fields)
qed

theorem conditional_derives_selected_branch_witness:
  "getTypeDefinition (Suc (Suc 0)) sample
     (TypeNode [] (ConditionalType (TypeNode [] StringKeyword) (TypeNode [] StringKeyword)
        (TypeNode [] StringKeyword) (TypeNode [] NumberKeyword))) initial =
     Inr (Ref 1, \<lparr>heap = [[(''type'', Str ''string'')], [(''type'', Str ''string'')]], resolved = []\<rparr>) \<and>
   getTypeDefinition (Suc (Suc 0)) sample
     (TypeNode [] (ConditionalType (TypeNode [] StringKeyword) (TypeNode [] NumberKeyword)
        (TypeNode [] StringKeyword) (TypeNode [] NumberKeyword))) initial =
     Inr (Ref 1, \<lparr>heap = [[(''type'', Str ''number'')], [(''type'', Str ''number'')]], resolved = []\<rparr>) \<and>
   getTypeDefinition (Suc (Suc 0)) sample
     (TypeNode [] (ConditionalType (TypeNode [] StringKeyword) (TypeNode [] StringKeyword)
        (TypeNode [] StringKeyword) (TypeNode [] StringKeyword))) initial = Inl BadConditional \<and>
   map_of (copy_with [[(''type'', Str ''string'')]] (Ref 0) (jsdocTag [])) =
     map_of (heap_get [[(''type'', Str ''string'')]] 0) ++ map_of (jsdocTag [])"
proof -
  let ?str = "TypeNode [] StringKeyword" and ?num = "TypeNode [] NumberKeyword"
  let ?s1 = "\<lparr>heap = [[(''type'', Str ''string'')]], resolved = []\<rparr>"
  have ok: "heap_ok (heap initial)" by (simp add: initial_def)
  have d: "getTypeDefinition (Suc 0) sample ?str initial = Inr (Ref 0, ?s1)"
    by code_simp
  have a: "getTypeDefinition (Suc (Suc 0)) sample (TypeNode [] (ConditionalType ?str ?str ?str ?num)) initial =
     Inr (Ref 1, \<lparr>heap = [[(''type'', Str ''string'')], [(''type'', Str ''string'')]], resolved = []\<rparr>)"
    by code_simp
  have b: "getTypeDefinition (Suc (Suc 0)) sample (TypeNode [] (ConditionalType ?str ?num ?str ?num)) initial =
     Inr (Ref 1, \<lparr>heap = [[(''type'', Str ''number'')], [(''type'', Str ''number'')]], resolved = []\<rparr>)"
    by code_simp
  have c: "isSameType (getTypeFromTypeNode sample ?str) (getTypeFromTypeNode sample ?str)"
    by code_simp
  from conditional_derives_selected_branch [where n = "Suc 0" and e = sample and tags = "[]"
      and checked = ?str and ext = ?str and trueBranch = ?str and falseBranch = ?str and s = initial
      and X = ?str and v = "Ref 0" and ?s1.0 = ?s1]
    ok d a b c
  show ?thesis by (simp del: getTypeDefinition.simps)
qed



text \<open>
  \<^bold>\<open>C4.\<close> For an object literal type, \<^verbatim>\<open>getTypeDefinition\<close> derives the type of
  every property signature in declaration order and returns, under the node's tags, the
  schema with \<^verbatim>\<open>type\<close> \<^verbatim>\<open>"object"\<close>, \<^verbatim>\<open>properties\<close> an object that maps each
  member name to the schema derived for that member (the last one of that name), and
  \<^verbatim>\<open>required\<close> the names of the members without a question token, in declaration
  order. In particular \<^verbatim>\<open>{ a: string, b?: number }\<close> yields
  \<^verbatim>\<open>{type: "object", properties: {a: {type: "string"}, b: {type: "number"}}, required: ["a"]}\<close>.
\<close>

theorem object_literal_schema:
  "getTypeDefinition (Suc n) e (TypeNode tags (TypeLiteral members)) s =
     andThen
       (mapM (\<lambda>(name, ty, questionToken) s0.
                case ty of None \<Rightarrow> Inl TypeError
                         | Some t \<Rightarrow> andThen (getTypeDefinition n e t s0) (\<lambda>(v, s1). Inr ((name, v), s1)))
          (propertySignatures members) s)
       (\<lambda>(derived, s1).
          Inr (Ref (Suc (length (heap s1))),
               s1\<lparr>heap := heap s1 @
                  [fold (\<lambda>(name, v) acc. set_prop (spread [] acc) name v) derived [],
                   spread [(''type'', Str ''object''),
                           (''properties'', Ref (length (heap s1))),
                           (''required'', Arr (map Str [name. PropertySignature name ty False \<leftarrow> members]))]
                     (jsdocTag tags)]\<rparr>)) \<and>
   (mapM (\<lambda>(name, ty, questionToken) s0.
                case ty of None \<Rightarrow> Inl TypeError
                         | Some t \<Rightarrow> andThen (getTypeDefinition n e t s0) (\<lambda>(v, s1). Inr ((name, v), s1)))
          (propertySignatures members) s = Inr (derived, s1) \<longrightarrow>
      map fst derived = [name. PropertySignature name ty questionToken \<leftarrow> members] \<and>
      map_of (fold (\<lambda>(name, v) acc. set_prop (spread [] acc) name v) derived []) = map_of (rev derived)) \<and>
   getTypeDefinition (Suc (Suc 0)) noDecls
     (TypeNode [] (TypeLiteral
        [PropertySignature ''a'' (Some (TypeNode [] StringKeyword)) False,
         PropertySignature ''b'' (Some (TypeNode [] NumberKeyword)) True])) initial =
     Inr (Ref 3, \<lparr>heap = [[(''type'', Str ''string'')], [(''type'', Str ''number'')],
                         [(''a'', Ref 0), (''b'', Ref 1)],
                         [(''type'', Str ''object''), (''properties'', Ref 2), (''required'', Arr [Str ''a''])]],
                  resolved = []\<rparr>)"
proof (intro conjI impI)
  show "getTypeDefinition (Suc n) e (TypeNode tags (TypeLiteral members)) s =
     andThen
       (mapM (\<lambda>(name, ty, questionToken) s0.
                case ty of None \<Rightarrow> Inl TypeError
                         | Some t \<Rightarrow> andThen (getTypeDefinition n e t s0) (\<lambda>(v, s1). Inr ((name, v), s1)))
          (propertySignatures members) s)
       (\<lambda>(derived, s1).
          Inr (Ref (Suc (length (heap s1))),
               s1\<lparr>heap := heap s1 @
                  [fold (\<lambda>(name, v) acc. set_prop (spread [] acc) name v) derived [],
                   spread [(''type'', Str ''object''),
                           (''properties'', Ref (length (heap s1))),
                           (''required'', Arr (map Str [name. PropertySignature name ty False \<leftarrow> members]))]
                     (jsdocTag tags)]\<rparr>))"
    by (simp add: getTypeDefinition_body_def typeLiteral_def Let_def new_object_def required_names
          cong: sum.case_cong)
next
  assume m: "mapM (\<lambda>(name, ty, questionToken) s0.
                case ty of None \<Rightarrow> Inl TypeError
                         | Some t \<Rightarrow> andThen (getTypeDefinition n e t s0) (\<lambda>(v, s1). Inr ((name, v), s1)))
          (propertySignatures members) s = Inr (derived, s1)"
  from mapM_member_names [OF m]
  show "map fst derived = [name. PropertySignature name ty questionToken \<leftarrow> members]"
    by (simp add: signature_names)
  show "map_of (fold (\<lambda>(name, v) acc. set_prop (spread [] acc) name v) derived []) = map_of (rev derived)"
    using map_of_properties_fold [of "[]" derived] by simp
next
  show "getTypeDefinition (Suc (Suc 0)) noDecls
     (TypeNode [] (TypeLiteral
        [PropertySignature ''a'' (Some (TypeNode [] StringKeyword)) False,
         PropertySignature ''b'' (Some (TypeNode [] NumberKeyword)) True])) initial =
     Inr (Ref 3, \<lparr>heap = [[(''type'', Str ''string'')], [(''type'', Str ''number'')],
                         [(''a'', Ref 0), (''b'', Ref 1)],
                         [(''type'', Str ''object''), (''properties'', Ref 2), (''required'', Arr [Str ''a''])]],
                  resolved = []\<rparr>)"
    by code_simp
qed

theorem object_literal_schema_witness:
  "mapM (\<lambda>(name, ty, questionToken) s0.
            case ty of None \<Rightarrow> Inl TypeError
                     | Some t \<Rightarrow> andThen (getTypeDefinition (Suc 0) noDecls t s0) (\<lambda>(v, s1). Inr ((name, v), s1)))
     (propertySignatures
        [PropertySignature ''a'' (Some (TypeNode [] StringKeyword)) False,
         PropertySignature ''b'' (Some (TypeNode [] NumberKeyword)) True]) initial =
     Inr ([(''a'', Ref 0), (''b'', Ref 1)],
          \<lparr>heap = [[(''type'', Str ''string'')], [(''type'', Str ''number'')]], resolved = []\<rparr>) \<and>
   map fst [(''a'', Ref 0), (''b'', Ref 1)] =
     [name. PropertySignature name ty questionToken \<leftarrow>
        [PropertySignature ''a'' (Some (TypeNode [] StringKeyword)) False,
         PropertySignature ''b'' (Some (TypeNode [] NumberKeyword)) True]] \<and>
   map_of (fold (\<lambda>(name, v) acc. set_prop (spread [] acc) name v) [(''a'', Ref 0), (''b'', Ref 1)] []) =
     map_of (rev [(''a'', Ref 0), (''b'', Ref 1)]) \<and>
   getTypeDefinition (Suc (Suc 0)) noDecls
     (TypeNode [] (TypeLiteral
        [PropertySignature ''a'' (Some (TypeNode [] StringKeyword)) False,
         PropertySignature ''b'' (Some (TypeNode [] NumberKeyword)) True])) initial =
     Inr (Ref 3, \<lparr>heap = [[(''type'', Str ''string'')], [(''type'', Str ''number'')],
                         [(''a'', Ref 0), (''b'', Ref 1)],
                         [(''type'', Str ''object''), (''properties'', Ref 2), (''required'', Arr [Str ''a''])]],
                  resolved = []\<rparr>)"
proof -
  let ?members = "[PropertySignature ''a'' (Some (TypeNode [] StringKeyword)) False,
         PropertySignature ''b'' (Some (TypeNode [] NumberKeyword)) True]"
  let ?s1 = "\<lparr>heap = [[(''type'', Str ''string'')], [(''type'', Str ''number'')]], resolved = []\<rparr>"
  have m: "mapM (\<lambda>(name, ty, questionToken) s0.
            case ty of None \<Rightarrow> Inl TypeError
                     | Some t \<Rightarrow> andThen (getTypeDefinition (Suc 0) noDecls t s0) (\<lambda>(v, s1). Inr ((name, v), s1)))
     (propertySignatures ?members) initial = Inr ([(''a'', Ref 0), (''b'', Ref 1)], ?s1)"
    by code_simp
  from object_literal_schema [where n = "Suc 0" and e = noDecls and tags = "[]" and members = ?members
      and s = initial and derived = "[(''a'', Ref 0), (''b'', Ref 1)]" and ?s1.0 = ?s1] m
  show ?thesis by blast
qed



text \<open>
  \<^bold>\<open>C6 (as amended).\<close> A type reference that carries type arguments and whose name is
  not a recognised operator is not a silent no-op: control falls out of the
  \<^verbatim>\<open>switch\<close>, none of the later tests matches, and \<^verbatim>\<open>getTypeDefinition\<close> raises
  the error \<^verbatim>\<open>unsupported node\<close>.
\<close>

theorem unrecognized_generic_reference_throws:
  "name \<notin> set operatorNames \<Longrightarrow>
     getTypeDefinition (Suc n) e (TypeNode tags (TypeReference name (Some args))) s = Inl UnsupportedNode"
  by (simp add: getTypeDefinition_body_def typeReference_def operatorNames_def)

theorem unrecognized_generic_reference_throws_witness:
  "''Foo'' \<notin> set operatorNames \<and>
     getTypeDefinition (Suc 0) noDecls (TypeNode [] (TypeReference ''Foo'' (Some [TypeNode [] StringKeyword])))
       initial = Inl UnsupportedNode"
proof -
  have h: "''Foo'' \<notin> set operatorNames" by (simp add: operatorNames_def)
  from unrecognized_generic_reference_throws [OF h] h show ?thesis by simp
qed

text \<open>
  The claim as stated (the reference produces no schema and raises nothing) fails for
  \<^verbatim>\<open>Foo<string>\<close>.
\<close>

theorem generic_reference_not_silent_counterexample:
  "getTypeDefinition (Suc 0) noDecls (TypeNode [] (TypeReference ''Foo'' (Some [TypeNode [] StringKeyword])))
     initial = Inl UnsupportedNode"
  by (simp add: getTypeDefinition_body_def typeReference_def)

text \<open>
  \<^bold>\<open>C7 (as amended).\<close> \<^verbatim>\<open>keyof target\<close> looks only at the \<^verbatim>\<open>properties\<close> field of
  the schema derived for the target, whatever its \<^verbatim>\<open>type\<close>: when the field is absent
  or \<^verbatim>\<open>undefined\<close>, \<^verbatim>\<open>Object.keys\<close> raises a \<open>TypeError\<close>; otherwise the result
  is \<^verbatim>\<open>{enum: Object.keys(properties)}\<close> under the node's tags. A failure of the
  target's derivation is passed on.
\<close>

theorem keyof_enumerates_properties:
  "(getTypeDefinition n e target s = Inr (arg, s1) \<longrightarrow>
      (\<exists>r. arg = Ref r \<and>
        getTypeDefinition (Suc n) e (TypeNode tags (TypeOperator KeyOfKeyword target)) s =
          (if obj_get (heap_get (heap s1) r) ''properties'' = Undefined then Inl TypeError
           else new_object
                  (spread [(''enum'', Arr (map (\<lambda>(k, x). Str k)
                        (own_entries (heap s1) (obj_get (heap_get (heap s1) r) ''properties''))))]
                     (jsdocTag tags)) s1))) \<and>
   (getTypeDefinition n e target s = Inl err \<longrightarrow>
      getTypeDefinition (Suc n) e (TypeNode tags (TypeOperator KeyOfKeyword target)) s = Inl err)"
proof (intro conjI impI)
  assume d: "getTypeDefinition n e target s = Inr (arg, s1)"
  from getTypeDefinition_Ref [OF d] obtain r where r: "arg = Ref r" by blast
  with d have "getTypeDefinition (Suc n) e (TypeNode tags (TypeOperator KeyOfKeyword target)) s =
          (if obj_get (heap_get (heap s1) r) ''properties'' = Undefined then Inl TypeError
           else new_object
                  (spread [(''enum'', Arr (map (\<lambda>(k, x). Str k)
                        (own_entries (heap s1) (obj_get (heap_get (heap s1) r) ''properties''))))]
                     (jsdocTag tags)) s1)"
    by (simp add: getTypeDefinition_body_def js_get_def object_keys_def)
  with r show "\<exists>r. arg = Ref r \<and>
        getTypeDefinition (Suc n) e (TypeNode tags (TypeOperator KeyOfKeyword target)) s =
          (if obj_get (heap_get (heap s1) r) ''properties'' = Undefined then Inl TypeError
           else new_object
                  (spread [(''enum'', Arr (map (\<lambda>(k, x). Str k)
                        (own_entries (heap s1) (obj_get (heap_get (heap s1) r) ''properties''))))]
                     (jsdocTag tags)) s1)"
    by blast
next
  assume "getTypeDefinition n e target s = Inl err"
  then show "getTypeDefinition (Suc n) e (TypeNode tags (TypeOperator KeyOfKeyword target)) s = Inl err"
    by (simp add: getTypeDefinition_body_def)
qed

theorem keyof_enumerates_properties_witness:
  "getTypeDefinition (Suc (Suc (Suc (Suc 0)))) sample
     (TypeNode [] (TypeOperator KeyOfKeyword (TypeNode [] (TypeReference ''A'' None)))) initial =
     Inr (Ref 5, \<lparr>heap = [[(''type'', Str ''string'')], [(''type'', Str ''number'')],
                         [(''a'', Ref 0), (''b'', Ref 1)],
                         [(''type'', Str ''object''), (''properties'', Ref 2), (''required'', Arr [Str ''a''])],
                         [(''type'', Str ''object''), (''properties'', Ref 2), (''required'', Arr [Str ''a''])],
                         [(''enum'', Arr [Str ''a'', Str ''b''])]],
                  resolved = [(''A'', Ref 3)]\<rparr>) \<and>
   getTypeDefinition (Suc (Suc 0)) sample
     (TypeNode [] (TypeOperator KeyOfKeyword (TypeNode [] StringKeyword))) initial = Inl TypeError \<and>
   getTypeDefinition (Suc (Suc 0)) sample
     (TypeNode [] (TypeOperator KeyOfKeyword (TypeNode [] (TypeReference ''Missing'' None)))) initial =
     Inl (NotFound ''Missing'')"
proof -
  let ?s1 = "\<lparr>heap = [[(''type'', Str ''string'')], [(''type'', Str ''number'')],
                         [(''a'', Ref 0), (''b'', Ref 1)],
                         [(''type'', Str ''object''), (''properties'', Ref 2), (''required'', Arr [Str ''a''])],
                         [(''type'', Str ''object''), (''properties'', Ref 2), (''required'', Arr [Str ''a''])]],
                  resolved = [(''A'', Ref 3)]\<rparr>"
  have d1: "getTypeDefinition (Suc (Suc (Suc 0))) sample (TypeNode [] (TypeReference ''A'' None)) initial =
      Inr (Ref 4, ?s1)"
    by code_simp
  have p1: "obj_get (heap_get (heap ?s1) 4) ''properties'' = Ref 2" by code_simp
  have n1: "new_object (spread [(''enum'', Arr (map (\<lambda>(k, x). Str k) (own_entries (heap ?s1) (Ref 2))))]
                     (jsdocTag [])) ?s1 =
     Inr (Ref 5, \<lparr>heap = [[(''type'', Str ''string'')], [(''type'', Str ''number'')],
                         [(''a'', Ref 0), (''b'', Ref 1)],
                         [(''type'', Str ''object''), (''properties'', Ref 2), (''required'', Arr [Str ''a''])],
                         [(''type'', Str ''object''), (''properties'', Ref 2), (''required'', Arr [Str ''a''])],
                         [(''enum'', Arr [Str ''a'', Str ''b''])]],
                  resolved = [(''A'', Ref 3)]\<rparr>)"
    by code_simp
  let ?s2 = "\<lparr>heap = [[(''type'', Str ''string'')]], resolved = []\<rparr>"
  have d2: "getTypeDefinition (Suc 0) sample (TypeNode [] StringKeyword) initial = Inr (Ref 0, ?s2)"
    by code_simp
  have p2: "obj_get (heap_get (heap ?s2) 0) ''properties'' = Undefined" by code_simp
  have d3: "getTypeDefinition (Suc 0) sample (TypeNode [] (TypeReference ''Missing'' None)) initial =
      Inl (NotFound ''Missing'')"
    by code_simp
  from keyof_enumerates_properties [where n = "Suc (Suc (Suc 0))" and e = sample
      and target = "TypeNode [] (TypeReference ''A'' None)" and s = initial and arg = "Ref 4"
      and ?s1.0 = ?s1 and tags = "[]"] d1 p1 n1
  have a: "getTypeDefinition (Suc (Suc (Suc (Suc 0)))) sample
     (TypeNode [] (TypeOperator KeyOfKeyword (TypeNode [] (TypeReference ''A'' None)))) initial =
     Inr (Ref 5, \<lparr>heap = [[(''type'', Str ''string'')], [(''type'', Str ''number'')],
                         [(''a'', Ref 0), (''b'', Ref 1)],
                         [(''type'', Str ''object''), (''properties'', Ref 2), (''required'', Arr [Str ''a''])],
                         [(''type'', Str ''object''), (''properties'', Ref 2), (''required'', Arr [Str ''a''])],
                         [(''enum'', Arr [Str ''a'', Str ''b''])]],
                  resolved = [(''A'', Ref 3)]\<rparr>)"
    by (auto simp del: getTypeDefinition.simps)
  from keyof_enumerates_properties [where n = "Suc 0" and e = sample
      and target = "TypeNode [] StringKeyword" and s = initial and arg = "Ref 0"
      and ?s1.0 = ?s2 and tags = "[]"] d2 p2
  have b: "getTypeDefinition (Suc (Suc 0)) sample
     (TypeNode [] (TypeOperator KeyOfKeyword (TypeNode [] StringKeyword))) initial = Inl TypeError"
    by (auto simp del: getTypeDefinition.simps)
  from keyof_enumerates_properties [where n = "Suc 0" and e = sample
      and target = "TypeNode [] (TypeReference ''Missing'' None)" and s = initial
      and err = "NotFound ''Missing''" and tags = "[]"] d3
  have c: "getTypeDefinition (Suc (Suc 0)) sample
     (TypeNode [] (TypeOperator KeyOfKeyword (TypeNode [] (TypeReference ''Missing'' None)))) initial =
     Inl (NotFound ''Missing'')"
    by (auto simp del: getTypeDefinition.simps)
  from a b c show ?thesis by simp
qed

text \<open>
  The claim as stated fails for \<^verbatim>\<open>keyof Tagged\<close>: the schema derived for
  \<^verbatim>\<open>Tagged\<close> is \<^verbatim>\<open>{type: "string", properties: "ab"}\<close>, which is not an object
  schema, and yet the result is \<^verbatim>\<open>{enum: ["0", "1"]}\<close> and no failure.
\<close>

theorem keyof_tagged_string_counterexample:
  "getTypeDefinition (Suc (Suc (Suc 0))) sample
     (TypeNode [] (TypeOperator KeyOfKeyword (TypeNode [] (TypeReference ''Tagged'' None)))) initial =
     Inr (Ref 2, \<lparr>heap = [[(''type'', Str ''string''), (''properties'', Str ''ab'')],
                         [(''type'', Str ''string''), (''properties'', Str ''ab'')],
                         [(''enum'', Arr [Str ''0'', Str ''1''])]],
                  resolved = [(''Tagged'', Ref 0)]\<rparr>)"
  by code_simp

text \<open>
  \<^bold>\<open>C8 (as amended).\<close> Let \<open>T\<close> be a bare reference to a name that the cache holds.
  \<^verbatim>\<open>getTypeDefinition\<close> works on a shallow copy of the cached schema, so
  \<^verbatim>\<open>Partial<T>\<close> deletes \<^verbatim>\<open>required\<close> from the copy only: the cache, the cached
  schema and every object allocated before stay as they were. The copy shares the
  \<^verbatim>\<open>properties\<close> object of the cached schema, so \<^verbatim>\<open>Omit<T, K>\<close>, for an object
  schema and \<open>K\<close> a string literal type or a union of them, deletes the keys of
  \<open>K\<close> from that shared object, and leaves the cached schema object itself (its
  \<^verbatim>\<open>required\<close> too) as it was. In both cases a later \<^verbatim>\<open>resolve\<close> of the name
  returns the cached reference.
\<close>

theorem omit_mutates_cached_properties_partial_does_not:
  "heap_ok (heap s) \<and> name \<notin> set operatorNames \<and>
   obj_get (resolved s) name = Ref r \<and> r < length (heap s) \<longrightarrow>
     (\<exists>s'. getTypeDefinition (Suc (Suc n)) e
              (TypeNode tags (TypeReference ''Partial'' (Some [TypeNode [] (TypeReference name None)]))) s =
              Inr (Ref (Suc (length (heap s))), s') \<and>
            resolved s' = resolved s \<and>
            take (length (heap s)) (heap s') = heap s \<and>
            (\<forall>derive. resolve_via derive e name s' = Inr (Ref r, s')) \<and>
            heap_get (heap s') r = heap_get (heap s) r) \<and>
     (obj_get (heap_get (heap s) r) ''type'' = Str ''object'' \<and>
      obj_get (heap_get (heap s) r) ''properties'' = Ref p \<and> p < length (heap s) \<and> p \<noteq> r \<and>
      obj_get (heap_get (heap s) r) ''required'' = Arr rs \<and>
      literalKeys K = Some names \<longrightarrow>
        (\<exists>s'. getTypeDefinition (Suc (Suc n)) e
                 (TypeNode tags (TypeReference ''Omit'' (Some [TypeNode [] (TypeReference name None), K]))) s =
                 Inr (Ref (length (heap s) + 3), s') \<and>
               resolved s' = resolved s \<and>
               (\<forall>derive. resolve_via derive e name s' = Inr (Ref r, s')) \<and>
               heap_get (heap s') r = heap_get (heap s) r \<and>
               heap_get (heap s') p = fold (\<lambda>k ob. delete_prop ob k) names (heap_get (heap s) p)))"
proof (intro impI conjI)
  assume a: "heap_ok (heap s) \<and> name \<notin> set operatorNames \<and>
   obj_get (resolved s) name = Ref r \<and> r < length (heap s)"
  then have ok: "heap_ok (heap s)" and name: "name \<notin> set operatorNames"
    and hit: "obj_get (resolved s) name = Ref r" and r: "r < length (heap s)"
    by simp_all
  let ?sP = "s\<lparr>heap := heap s @
                 [delete_prop (spread [] (heap_get (heap s) r)) ''required'',
                  spread (spread [] (delete_prop (spread [] (heap_get (heap s) r)) ''required''))
                    (jsdocTag tags)]\<rparr>"
  have "getTypeDefinition (Suc (Suc n)) e
              (TypeNode tags (TypeReference ''Partial'' (Some [TypeNode [] (TypeReference name None)]))) s =
              Inr (Ref (Suc (length (heap s))), ?sP)"
    by (rule partial_of_cached [OF ok name hit r])
  moreover have "resolved ?sP = resolved s" by simp
  moreover have "take (length (heap s)) (heap ?sP) = heap s" by simp
  moreover have "\<forall>derive. resolve_via derive e name ?sP = Inr (Ref r, ?sP)"
    using hit by (simp add: resolve_via_def)
  moreover have "heap_get (heap ?sP) r = heap_get (heap s) r"
    using r by (simp add: heap_get_def nth_append)
  ultimately show "\<exists>s'. getTypeDefinition (Suc (Suc n)) e
              (TypeNode tags (TypeReference ''Partial'' (Some [TypeNode [] (TypeReference name None)]))) s =
              Inr (Ref (Suc (length (heap s))), s') \<and>
            resolved s' = resolved s \<and>
            take (length (heap s)) (heap s') = heap s \<and>
            (\<forall>derive. resolve_via derive e name s' = Inr (Ref r, s')) \<and>
            heap_get (heap s') r = heap_get (heap s) r"
    by blast
  assume b: "obj_get (heap_get (heap s) r) ''type'' = Str ''object'' \<and>
      obj_get (heap_get (heap s) r) ''properties'' = Ref p \<and> p < length (heap s) \<and> p \<noteq> r \<and>
      obj_get (heap_get (heap s) r) ''required'' = Arr rs \<and>
      literalKeys K = Some names"
  then have ty: "obj_get (heap_get (heap s) r) ''type'' = Str ''object''"
    and props: "obj_get (heap_get (heap s) r) ''properties'' = Ref p"
    and p: "p < length (heap s)" and pr: "p \<noteq> r"
    and req: "obj_get (heap_get (heap s) r) ''required'' = Arr rs"
    and keys: "literalKeys K = Some names"
    by simp_all
  let ?sO = "s\<lparr>heap := (heap s)[p := fold (\<lambda>k ob. delete_prop ob k) names (heap_get (heap s) p)] @
                 [spread [] (heap_get (heap s) r),
                  [(''enum'', Arr (map Str names))],
                  set_prop (spread [] (spread [] (heap_get (heap s) r))) ''required''
                    (Arr (filter (\<lambda>x. x \<notin> Str ` set names) rs)),
                  spread (spread [] (set_prop (spread [] (spread [] (heap_get (heap s) r))) ''required''
                    (Arr (filter (\<lambda>x. x \<notin> Str ` set names) rs)))) (jsdocTag tags)]\<rparr>"
  have "getTypeDefinition (Suc (Suc n)) e
                 (TypeNode tags (TypeReference ''Omit'' (Some [TypeNode [] (TypeReference name None), K]))) s =
                 Inr (Ref (length (heap s) + 3), ?sO)"
    by (rule omit_of_cached [OF ok name hit r ty props p req keys])
  moreover have "resolved ?sO = resolved s" by simp
  moreover have "\<forall>derive. resolve_via derive e name ?sO = Inr (Ref r, ?sO)"
    using hit by (simp add: resolve_via_def)
  moreover have "heap_get (heap ?sO) r = heap_get (heap s) r"
    using r pr by (simp add: heap_get_def nth_append)
  moreover have "heap_get (heap ?sO) p = fold (\<lambda>k ob. delete_prop ob k) names (heap_get (heap s) p)"
    using p by (simp add: heap_get_def nth_append)
  ultimately show "\<exists>s'. getTypeDefinition (Suc (Suc n)) e
                 (TypeNode tags (TypeReference ''Omit'' (Some [TypeNode [] (TypeReference name None), K]))) s =
                 Inr (Ref (length (heap s) + 3), s') \<and>
               resolved s' = resolved s \<and>
               (\<forall>derive. resolve_via derive e name s' = Inr (Ref r, s')) \<and>
               heap_get (heap s') r = heap_get (heap s) r \<and>
               heap_get (heap s') p = fold (\<lambda>k ob. delete_prop ob k) names (heap_get (heap s) p)"
    by blast
qed

theorem omit_mutates_cached_properties_partial_does_not_witness:
  "getTypeDefinition (Suc (Suc 0)) sample
     (TypeNode [] (TypeReference ''Omit'' (Some [TypeNode [] (TypeReference ''A'' None),
        TypeNode [] (UnionType [TypeNode [] (LiteralType (StringLiteral ''a'')),
                                TypeNode [] (LiteralType (StringLiteral ''c''))])]))) cachedA =
     Inr (Ref 7,
          \<lparr>heap = [[(''type'', Str ''string'')], [(''type'', Str ''number'')],
                   [(''b'', Ref 1)],
                   [(''type'', Str ''object''), (''properties'', Ref 2), (''required'', Arr [Str ''a''])],
                   [(''type'', Str ''object''), (''properties'', Ref 2), (''required'', Arr [Str ''a''])],
                   [(''enum'', Arr [Str ''a'', Str ''c''])],
                   [(''type'', Str ''object''), (''properties'', Ref 2), (''required'', Arr [])],
                   [(''type'', Str ''object''), (''properties'', Ref 2), (''required'', Arr [])]],
            resolved = [(''A'', Ref 3)]\<rparr>) \<and>
   heap_get [[(''type'', Str ''string'')], [(''type'', Str ''number'')],
                   [(''b'', Ref 1)],
                   [(''type'', Str ''object''), (''properties'', Ref 2), (''required'', Arr [Str ''a''])],
                   [(''type'', Str ''object''), (''properties'', Ref 2), (''required'', Arr [Str ''a''])],
                   [(''enum'', Arr [Str ''a'', Str ''c''])],
                   [(''type'', Str ''object''), (''properties'', Ref 2), (''required'', Arr [])],
                   [(''type'', Str ''object''), (''properties'', Ref 2), (''required'', Arr [])]] 2 =
     fold (\<lambda>k ob. delete_prop ob k) [''a'', ''c''] (heap_get (heap cachedA) 2) \<and>
   getTypeDefinition (Suc (Suc 0)) sample
     (TypeNode [] (TypeReference ''Partial'' (Some [TypeNode [] (TypeReference ''A'' None)]))) cachedA =
     Inr (Ref 5,
          \<lparr>heap = [[(''type'', Str ''string'')], [(''type'', Str ''number'')],
                   [(''a'', Ref 0), (''b'', Ref 1)],
                   [(''type'', Str ''object''), (''properties'', Ref 2), (''required'', Arr [Str ''a''])],
                   [(''type'', Str ''object''), (''properties'', Ref 2)],
                   [(''type'', Str ''object''), (''properties'', Ref 2)]],
            resolved = [(''A'', Ref 3)]\<rparr>) \<and>
   heap_get [[(''type'', Str ''string'')], [(''type'', Str ''number'')],
                   [(''a'', Ref 0), (''b'', Ref 1)],
                   [(''type'', Str ''object''), (''properties'', Ref 2), (''required'', Arr [Str ''a''])],
                   [(''type'', Str ''object''), (''properties'', Ref 2)],
                   [(''type'', Str ''object''), (''properties'', Ref 2)]] 3 =
     heap_get (heap cachedA) 3"
proof -
  let ?K = "TypeNode [] (UnionType [TypeNode [] (LiteralType (StringLiteral ''a'')),
                                TypeNode [] (LiteralType (StringLiteral ''c''))])"
  let ?sO = "\<lparr>heap = [[(''type'', Str ''string'')], [(''type'', Str ''number'')],
                   [(''b'', Ref 1)],
                   [(''type'', Str ''object''), (''properties'', Ref 2), (''required'', Arr [Str ''a''])],
                   [(''type'', Str ''object''), (''properties'', Ref 2), (''required'', Arr [Str ''a''])],
                   [(''enum'', Arr [Str ''a'', Str ''c''])],
                   [(''type'', Str ''object''), (''properties'', Ref 2), (''required'', Arr [])],
                   [(''type'', Str ''object''), (''properties'', Ref 2), (''required'', Arr [])]],
            resolved = [(''A'', Ref 3)]\<rparr>"
  let ?sP = "\<lparr>heap = [[(''type'', Str ''string'')], [(''type'', Str ''number'')],
                   [(''a'', Ref 0), (''b'', Ref 1)],
                   [(''type'', Str ''object''), (''properties'', Ref 2), (''required'', Arr [Str ''a''])],
                   [(''type'', Str ''object''), (''properties'', Ref 2)],
                   [(''type'', Str ''object''), (''properties'', Ref 2)]],
            resolved = [(''A'', Ref 3)]\<rparr>"
  have pre: "heap_ok (heap cachedA) \<and> ''A'' \<notin> set operatorNames \<and>
      obj_get (resolved cachedA) ''A'' = Ref 3 \<and> 3 < length (heap cachedA)"
    by (simp add: cachedA_def operatorNames_def obj_get_def)
  have pre2: "obj_get (heap_get (heap cachedA) 3) ''type'' = Str ''object'' \<and>
      obj_get (heap_get (heap cachedA) 3) ''properties'' = Ref 2 \<and> 2 < length (heap cachedA) \<and> (2::nat) \<noteq> 3 \<and>
      obj_get (heap_get (heap cachedA) 3) ''required'' = Arr [Str ''a''] \<and>
      literalKeys ?K = Some [''a'', ''c'']"
    by (simp add: cachedA_def obj_get_def heap_get_def stringLiteralText_def)
  have runO: "getTypeDefinition (Suc (Suc 0)) sample
     (TypeNode [] (TypeReference ''Omit'' (Some [TypeNode [] (TypeReference ''A'' None), ?K]))) cachedA =
     Inr (Ref 7, ?sO)"
    by code_simp
  have runP: "getTypeDefinition (Suc (Suc 0)) sample
     (TypeNode [] (TypeReference ''Partial'' (Some [TypeNode [] (TypeReference ''A'' None)]))) cachedA =
     Inr (Ref 5, ?sP)"
    by code_simp
  note T = omit_mutates_cached_properties_partial_does_not [where s = cachedA and name = "''A''"
      and r = 3 and n = 0 and e = sample and tags = "[]" and p = 2 and rs = "[Str ''a'']"
      and K = ?K and names = "[''a'', ''c'']"]
  from T pre pre2 obtain s' where
    "getTypeDefinition (Suc (Suc 0)) sample
       (TypeNode [] (TypeReference ''Omit'' (Some [TypeNode [] (TypeReference ''A'' None), ?K]))) cachedA =
       Inr (Ref (length (heap cachedA) + 3), s')"
    and "heap_get (heap s') 2 = fold (\<lambda>k ob. delete_prop ob k) [''a'', ''c''] (heap_get (heap cachedA) 2)"
    by blast
  with runO have o: "heap_get (heap ?sO) 2 =
      fold (\<lambda>k ob. delete_prop ob k) [''a'', ''c''] (heap_get (heap cachedA) 2)"
    by (simp del: getTypeDefinition.simps)
  from T pre obtain s'' where
    "getTypeDefinition (Suc (Suc 0)) sample
       (TypeNode [] (TypeReference ''Partial'' (Some [TypeNode [] (TypeReference ''A'' None)]))) cachedA =
       Inr (Ref (Suc (length (heap cachedA))), s'')"
    and "heap_get (heap s'') 3 = heap_get (heap cachedA) 3"
    by blast
  with runP have p: "heap_get (heap ?sP) 3 = heap_get (heap cachedA) 3"
    by (simp del: getTypeDefinition.simps)
  from runO runP o p show ?thesis
    by (simp del: getTypeDefinition.simps fold_simps)
qed

text \<open>
  The claim as stated (\<^verbatim>\<open>Partial<T>\<close> deletes the \<^verbatim>\<open>required\<close> field of the cached
  schema) fails for \<^verbatim>\<open>Partial<A>\<close> after \<^verbatim>\<open>resolve("A")\<close>: the cached schema,
  at address 3, keeps \<^verbatim>\<open>required: ["a"]\<close>, and \<^verbatim>\<open>resolve("A")\<close> returns it.
\<close>

theorem partial_leaves_cache_counterexample:
  "resolve (Suc (Suc 0)) sample ''A'' initial = Inr (Ref 3, cachedA) \<and>
   getTypeDefinition (Suc (Suc 0)) sample
     (TypeNode [] (TypeReference ''Partial'' (Some [TypeNode [] (TypeReference ''A'' None)]))) cachedA =
     Inr (Ref 5,
          \<lparr>heap = [[(''type'', Str ''string'')], [(''type'', Str ''number'')],
                   [(''a'', Ref 0), (''b'', Ref 1)],
                   [(''type'', Str ''object''), (''properties'', Ref 2), (''required'', Arr [Str ''a''])],
                   [(''type'', Str ''object''), (''properties'', Ref 2)],
                   [(''type'', Str ''object''), (''properties'', Ref 2)]],
            resolved = [(''A'', Ref 3)]\<rparr>) \<and>
   resolve 0 sample ''A''
     \<lparr>heap = [[(''type'', Str ''string'')], [(''type'', Str ''number'')],
              [(''a'', Ref 0), (''b'', Ref 1)],
              [(''type'', Str ''object''), (''properties'', Ref 2), (''required'', Arr [Str ''a''])],
              [(''type'', Str ''object''), (''properties'', Ref 2)],
              [(''type'', Str ''object''), (''properties'', Ref 2)]],
       resolved = [(''A'', Ref 3)]\<rparr> =
     Inr (Ref 3,
          \<lparr>heap = [[(''type'', Str ''string'')], [(''type'', Str ''number'')],
                   [(''a'', Ref 0), (''b'', Ref 1)],
                   [(''type'', Str ''object''), (''properties'', Ref 2), (''required'', Arr [Str ''a''])],
                   [(''type'', Str ''object''), (''properties'', Ref 2)],
                   [(''type'', Str ''object''), (''properties'', Ref 2)]],
            resolved = [(''A'', Ref 3)]\<rparr>)"
  by code_simp

text \<open>
  \<^bold>\<open>C9 (as amended).\<close> \<^verbatim>\<open>Partial<T>\<close> derives \<open>T\<close>, deletes \<^verbatim>\<open>required\<close> from
  the result and returns a copy under the node's tags: the fields of the result are
  those derived for \<open>T\<close> without \<^verbatim>\<open>required\<close>, the tags written over them. The
  result has a \<^verbatim>\<open>required\<close> field exactly when the \<^verbatim>\<open>Partial\<close> node itself
  carries a tag of that name.
\<close>

theorem partial_drops_required:
  "getTypeDefinition (Suc n) e (TypeNode tags (TypeReference ''Partial'' (Some (T # rest)))) s =
     andThen (getTypeDefinition n e T s) (\<lambda>(v, s1).
     andThen (js_delete v ''required'' s1) (\<lambda>s2.
     new_object (copy_with (heap s2) v (jsdocTag tags)) s2)) \<and>
   (heap_ok (heap s) \<longrightarrow>
    getTypeDefinition (Suc n) e (TypeNode tags (TypeReference ''Partial'' (Some (T # rest)))) s = Inr (v', s') \<longrightarrow>
      (\<exists>r s1 r'. getTypeDefinition n e T s = Inr (Ref r, s1) \<and> v' = Ref r' \<and>
         map_of (heap_get (heap s') r') =
           (map_of (heap_get (heap s1) r))(''required'' := None) ++ map_of (jsdocTag tags) \<and>
         map_of (heap_get (heap s') r') ''required'' = map_of (jsdocTag tags) ''required''))"
proof (intro conjI impI)
  show eq: "getTypeDefinition (Suc n) e (TypeNode tags (TypeReference ''Partial'' (Some (T # rest)))) s =
     andThen (getTypeDefinition n e T s) (\<lambda>(v, s1).
     andThen (js_delete v ''required'' s1) (\<lambda>s2.
     new_object (copy_with (heap s2) v (jsdocTag tags)) s2))"
    by (simp add: getTypeDefinition_body_def typeReference_def deriveArgument_def typeArgument_def)
  assume ok: "heap_ok (heap s)"
    and run: "getTypeDefinition (Suc n) e (TypeNode tags (TypeReference ''Partial'' (Some (T # rest)))) s = Inr (v', s')"
  from run [unfolded eq] obtain v s1 s2 where
    d: "getTypeDefinition n e T s = Inr (v, s1)" and
    del: "js_delete v ''required'' s1 = Inr s2" and
    new: "new_object (copy_with (heap s2) v (jsdocTag tags)) s2 = Inr (v', s')"
    by (auto elim!: andThenE)
  define r where "r = length (heap s1) - 1"
  from getTypeDefinition_Ref [OF d] have v: "v = Ref r" and r: "r < length (heap s1)"
    by (simp_all add: r_def)
  have ok1: "heap_ok (heap s1)" by (rule getTypeDefinition_ok [OF d ok])
  from del v have s2: "heap s2 = (heap s1)[r := delete_prop (heap_get (heap s1) r) ''required'']"
    by (auto simp: js_delete_def)
  have ok2: "heap_ok (heap s2)" by (rule js_delete_ok [OF del ok1])
  from new have v': "v' = Ref (length (heap s2))"
    and s': "heap s' = heap s2 @ [copy_with (heap s2) v (jsdocTag tags)]"
    by (auto simp: new_object_def)
  have "heap_get (heap s') (length (heap s2)) = copy_with (heap s2) (Ref r) (jsdocTag tags)"
    by (simp add: s' v)
  moreover have "heap_get (heap s2) r = delete_prop (heap_get (heap s1) r) ''required''"
    using r by (simp add: s2)
  ultimately have fields: "map_of (heap_get (heap s') (length (heap s2))) =
      (map_of (heap_get (heap s1) r))(''required'' := None) ++ map_of (jsdocTag tags)"
    by (simp add: copy_with_fields [OF ok2] map_of_delete_prop)
  then have "map_of (heap_get (heap s') (length (heap s2))) ''required'' = map_of (jsdocTag tags) ''required''"
    by (simp add: map_add_def split: option.splits)
  with fields d v v' show "\<exists>r s1 r'. getTypeDefinition n e T s = Inr (Ref r, s1) \<and> v' = Ref r' \<and>
         map_of (heap_get (heap s') r') =
           (map_of (heap_get (heap s1) r))(''required'' := None) ++ map_of (jsdocTag tags) \<and>
         map_of (heap_get (heap s') r') ''required'' = map_of (jsdocTag tags) ''required''"
    by blast
qed

theorem partial_drops_required_witness:
  "getTypeDefinition (Suc (Suc (Suc 0))) noDecls
     (TypeNode [] (TypeReference ''Partial'' (Some [TypeNode [] (TypeLiteral
        [PropertySignature ''a'' (Some (TypeNode [] StringKeyword)) False])])))
     initial =
     Inr (Ref 3, \<lparr>heap = [[(''type'', Str ''string'')], [(''a'', Ref 0)],
                         [(''type'', Str ''object''), (''properties'', Ref 1)],
                         [(''type'', Str ''object''), (''properties'', Ref 1)]],
                  resolved = []\<rparr>) \<and>
   map_of [(''type'', Str ''object''), (''properties'', Ref 1)] ''required'' = map_of (jsdocTag []) ''required''"
proof -
  let ?P = "TypeNode [] (TypeReference ''Partial'' (Some [TypeNode [] (TypeLiteral
        [PropertySignature ''a'' (Some (TypeNode [] StringKeyword)) False])]))"
  let ?s' = "\<lparr>heap = [[(''type'', Str ''string'')], [(''a'', Ref 0)],
                         [(''type'', Str ''object''), (''properties'', Ref 1)],
                         [(''type'', Str ''object''), (''properties'', Ref 1)]],
                  resolved = []\<rparr>"
  have ok: "heap_ok (heap initial)" by (simp add: initial_def)
  have run: "getTypeDefinition (Suc (Suc (Suc 0))) noDecls ?P initial = Inr (Ref 3, ?s')"
    by code_simp
  have get: "heap_get (heap ?s') 3 = [(''type'', Str ''object''), (''properties'', Ref 1)]"
    by code_simp
  from partial_drops_required [where n = "Suc (Suc 0)" and e = noDecls and tags = "[]"
      and T = "TypeNode [] (TypeLiteral [PropertySignature ''a'' (Some (TypeNode [] StringKeyword)) False])"
      and rest = "[]" and s = initial and v' = "Ref 3" and s' = ?s'] ok run get
  show ?thesis by (auto simp del: getTypeDefinition.simps)
qed

text \<open>
  The claim as stated (the result never has a \<^verbatim>\<open>required\<close> field) fails for
  \<^verbatim>\<open>/** @required yes */ type P = Partial<{ a: string }>\<close>.
\<close>

theorem partial_required_tag_counterexample:
  "getTypeDefinition (Suc (Suc (Suc 0))) noDecls
     (TypeNode [(''required'', Some ''yes'')] (TypeReference ''Partial'' (Some [TypeNode [] (TypeLiteral
        [PropertySignature ''a'' (Some (TypeNode [] StringKeyword)) False])])))
     initial =
     Inr (Ref 3, \<lparr>heap = [[(''type'', Str ''string'')], [(''a'', Ref 0)],
                         [(''type'', Str ''object''), (''properties'', Ref 1)],
                         [(''type'', Str ''object''), (''properties'', Ref 1), (''required'', Str ''yes'')]],
                  resolved = []\<rparr>)"
  by code_simp

text \<open>
  \<^bold>\<open>C10.\<close> \<^verbatim>\<open>Exclude<T, U>\<close> derives \<open>T\<close> and \<^verbatim>\<open>Extract<T, U>\<close> derives
  \<open>U\<close>; each returns a copy of that schema under the node's tags and computes no
  difference or intersection. The copy has the fields of the derived schema, the tags
  written over them.
\<close>

theorem exclude_extract_pass_through:
  "getTypeDefinition (Suc n) e (TypeNode tags (TypeReference ''Exclude'' (Some (T # U # rest)))) s =
     andThen (getTypeDefinition n e T s)
       (\<lambda>(v, s1). new_object (copy_with (heap s1) v (jsdocTag tags)) s1) \<and>
   getTypeDefinition (Suc n) e (TypeNode tags (TypeReference ''Extract'' (Some (T # U # rest)))) s =
     andThen (getTypeDefinition n e U s)
       (\<lambda>(v, s1). new_object (copy_with (heap s1) v (jsdocTag tags)) s1) \<and>
   (heap_ok (heap s) \<longrightarrow> getTypeDefinition n e X s = Inr (v, s1) \<longrightarrow>
      (\<exists>r. v = Ref r \<and>
         map_of (copy_with (heap s1) v (jsdocTag tags)) =
           map_of (heap_get (heap s1) r) ++ map_of (jsdocTag tags)))"
proof (intro conjI impI)
  show "getTypeDefinition (Suc n) e (TypeNode tags (TypeReference ''Exclude'' (Some (T # U # rest)))) s =
     andThen (getTypeDefinition n e T s)
       (\<lambda>(v, s1). new_object (copy_with (heap s1) v (jsdocTag tags)) s1)"
    by (simp add: getTypeDefinition_body_def typeReference_def deriveArgument_def typeArgument_def)
  show "getTypeDefinition (Suc n) e (TypeNode tags (TypeReference ''Extract'' (Some (T # U # rest)))) s =
     andThen (getTypeDefinition n e U s)
       (\<lambda>(v, s1). new_object (copy_with (heap s1) v (jsdocTag tags)) s1)"
    by (simp add: getTypeDefinition_body_def typeReference_def deriveArgument_def typeArgument_def)
next
  assume ok: "heap_ok (heap s)" and run: "getTypeDefinition n e X s = Inr (v, s1)"
  from getTypeDefinition_ok [OF run ok] have "heap_ok (heap s1)" .
  moreover from getTypeDefinition_Ref [OF run] obtain r where "v = Ref r" by blast
  ultimately show "\<exists>r. v = Ref r \<and>
         map_of (copy_with (heap s1) v (jsdocTag tags)) =
           map_of (heap_get (heap s1) r) ++ map_of (jsdocTag tags)"
    by (auto simp: copy_with_fields)
qed

theorem exclude_extract_pass_through_witness:
  "getTypeDefinition (Suc (Suc 0)) noDecls
     (TypeNode [] (TypeReference ''Exclude'' (Some [TypeNode [] StringKeyword, TypeNode [] NumberKeyword])))
     initial =
     Inr (Ref 1, \<lparr>heap = [[(''type'', Str ''string'')], [(''type'', Str ''string'')]], resolved = []\<rparr>) \<and>
   getTypeDefinition (Suc (Suc 0)) noDecls
     (TypeNode [] (TypeReference ''Extract'' (Some [TypeNode [] StringKeyword, TypeNode [] NumberKeyword])))
     initial =
     Inr (Ref 1, \<lparr>heap = [[(''type'', Str ''number'')], [(''type'', Str ''number'')]], resolved = []\<rparr>) \<and>
   map_of (copy_with [[(''type'', Str ''string'')]] (Ref 0) (jsdocTag [])) =
     map_of (heap_get [[(''type'', Str ''string'')]] 0) ++ map_of (jsdocTag [])"
proof -
  let ?s1 = "\<lparr>heap = [[(''type'', Str ''string'')]], resolved = []\<rparr>"
  have ok: "heap_ok (heap initial)" by (simp add: initial_def)
  have d: "getTypeDefinition (Suc 0) noDecls (TypeNode [] StringKeyword) initial = Inr (Ref 0, ?s1)"
    by code_simp
  have d2: "getTypeDefinition (Suc 0) noDecls (TypeNode [] NumberKeyword) initial =
      Inr (Ref 0, \<lparr>heap = [[(''type'', Str ''number'')]], resolved = []\<rparr>)"
    by code_simp
  have n1: "new_object (copy_with (heap ?s1) (Ref 0) (jsdocTag [])) ?s1 =
      Inr (Ref 1, \<lparr>heap = [[(''type'', Str ''string'')], [(''type'', Str ''string'')]], resolved = []\<rparr>)"
    by code_simp
  have n2: "new_object (copy_with [[(''type'', Str ''number'')]] (Ref 0) (jsdocTag []))
        \<lparr>heap = [[(''type'', Str ''number'')]], resolved = []\<rparr> =
      Inr (Ref 1, \<lparr>heap = [[(''type'', Str ''number'')], [(''type'', Str ''number'')]], resolved = []\<rparr>)"
    by code_simp
  from exclude_extract_pass_through [where n = "Suc 0" and e = noDecls and tags = "[]"
      and T = "TypeNode [] StringKeyword" and U = "TypeNode [] NumberKeyword" and rest = "[]"
      and s = initial and X = "TypeNode [] StringKeyword" and v = "Ref 0" and ?s1.0 = ?s1]
    ok d d2 n1 n2
  show ?thesis by (simp del: getTypeDefinition.simps)
qed

end
